theory Spec2Isabelle
  imports Main
begin

section \<open>The calculator core of \<open>calculator.py\<close>\<close>

text \<open>
  The core of the program is \<open>CalculatorLayout.process_input\<close> (the input buffer) together
  with \<open>evaluate_expression\<close> and \<open>is_safe_expression\<close> (the evaluator). The evaluator hands
  the validated text to Python's builtin \<open>eval\<close>, so the first part of this theory is a model
  of the fragment of Python that \<open>eval\<close> can meet there: the text consists of decimal digits,
  the characters \<open>+ - * / . ( )\<close> and white space only. Strings are lists of characters with
  code points below 256. The reference behaviour is CPython 3.11 on a 64-bit platform with
  IEEE 754 binary64 floats and the default limit of 4300 digits on conversions between
  \<open>int\<close> and \<open>str\<close>.
\<close>

subsection \<open>Python exceptions and values\<close>

text \<open>
  The exception classes that the evaluation can raise. \<open>UnboundLocalError\<close> is a subclass of
  \<open>NameError\<close> and \<open>IndentationError\<close> one of \<open>SyntaxError\<close>; both are recorded under the
  class that the \<open>except\<close> clauses of the program name.
\<close>

datatype pyexn = ZeroDivisionError | SyntaxError | NameError | TypeError | ValueError
  | OverflowError

text \<open>
  A float is an IEEE 754 binary64 value: \<open>Fin s m e\<close> is \<open>(-1)\<^sup>s * m * 2\<^sup>e\<close> with the
  significand and exponent of the format, that is \<open>2\<^sup>5\<^sup>2 \<le> m < 2\<^sup>5\<^sup>3\<close> and
  \<open>-1074 \<le> e \<le> 971\<close> for a normal number and \<open>m < 2\<^sup>5\<^sup>2\<close>, \<open>e = -1074\<close> for a
  subnormal number or a zero.
\<close>

datatype pyfloat = Fin bool nat int | FInf bool | FNaN

text \<open>The values: an \<open>int\<close>, a \<open>float\<close>, or the empty tuple \<open>()\<close>.\<close>

datatype pyval = PInt int | PFloat pyfloat | PTuple

subsection \<open>Rounding to binary64\<close>

function bit_length :: "nat \<Rightarrow> nat" where
  "bit_length n = (if n = 0 then 0 else Suc (bit_length (n div 2)))"
  by pat_completeness auto
termination
  by (relation "measure id") auto

declare bit_length.simps [simp del]

text \<open>\<open>ge_pow2 a d k\<close> decides \<open>a / d \<ge> 2\<^sup>k\<close> for \<open>d > 0\<close>.\<close>

definition ge_pow2 :: "nat \<Rightarrow> nat \<Rightarrow> int \<Rightarrow> bool" where
  "ge_pow2 a d k = (if 0 \<le> k then d * 2 ^ nat k \<le> a else d \<le> a * 2 ^ nat (- k))"

text \<open>The quotient \<open>num / den\<close> rounded to the nearest integer, ties to even.\<close>

definition rne_div :: "nat \<Rightarrow> nat \<Rightarrow> nat" where
  "rne_div num den =
     (let q = num div den; r = num mod den
      in if den < 2 * r \<or> (2 * r = den \<and> odd q) then q + 1 else q)"

text \<open>
  \<open>float_round s a d\<close> is the binary64 value nearest to \<open>(-1)\<^sup>s * a / d\<close> (for \<open>d > 0\<close>),
  ties to even, and an infinity when the rounded magnitude reaches \<open>2\<^sup>1\<^sup>0\<^sup>2\<^sup>4\<close>.
\<close>

definition float_round :: "bool \<Rightarrow> nat \<Rightarrow> nat \<Rightarrow> pyfloat" where
  "float_round s a d =
     (if a = 0 then Fin s 0 (- 1074)
      else
        let k = int (bit_length a) - int (bit_length d);
            ex = (if ge_pow2 a d k then k else k - 1);
            q = max ex (- 1022) - 52;
            m = (if 0 \<le> q then rne_div a (d * 2 ^ nat q) else rne_div (a * 2 ^ nat (- q)) d);
            m' = (if m = 2 ^ 53 then 2 ^ 52 else m);
            q' = (if m = 2 ^ 53 then q + 1 else q)
        in if 971 < q' then FInf s else Fin s m' q')"

text \<open>The same for \<open>(-1)\<^sup>s * (a / d) * 2\<^sup>e\<close>.\<close>

definition float_round_scaled :: "bool \<Rightarrow> nat \<Rightarrow> nat \<Rightarrow> int \<Rightarrow> pyfloat" where
  "float_round_scaled s a d e =
     (if 0 \<le> e then float_round s (a * 2 ^ nat e) d else float_round s a (d * 2 ^ nat (- e)))"

subsection \<open>Float arithmetic\<close>

fun float_neg :: "pyfloat \<Rightarrow> pyfloat" where
  "float_neg (Fin s m e) = Fin (\<not> s) m e"
| "float_neg (FInf s) = FInf (\<not> s)"
| "float_neg FNaN = FNaN"

fun float_is_zero :: "pyfloat \<Rightarrow> bool" where
  "float_is_zero (Fin s m e) = (m = 0)"
| "float_is_zero _ = False"

definition signed :: "bool \<Rightarrow> nat \<Rightarrow> int" where
  "signed s m = (if s then - int m else int m)"

fun float_add :: "pyfloat \<Rightarrow> pyfloat \<Rightarrow> pyfloat" where
  "float_add (Fin s1 m1 e1) (Fin s2 m2 e2) =
     (let e0 = min e1 e2;
          n = signed s1 m1 * 2 ^ nat (e1 - e0) + signed s2 m2 * 2 ^ nat (e2 - e0)
      in if n = 0 then Fin (s1 \<and> s2) 0 (- 1074)
         else float_round_scaled (n < 0) (nat \<bar>n\<bar>) 1 e0)"
| "float_add (FInf s1) (FInf s2) = (if s1 = s2 then FInf s1 else FNaN)"
| "float_add (FInf s1) (Fin s2 m2 e2) = FInf s1"
| "float_add (Fin s1 m1 e1) (FInf s2) = FInf s2"
| "float_add _ _ = FNaN"

definition float_sub :: "pyfloat \<Rightarrow> pyfloat \<Rightarrow> pyfloat" where
  "float_sub x y = float_add x (float_neg y)"

fun float_mul :: "pyfloat \<Rightarrow> pyfloat \<Rightarrow> pyfloat" where
  "float_mul (Fin s1 m1 e1) (Fin s2 m2 e2) = float_round_scaled (s1 \<noteq> s2) (m1 * m2) 1 (e1 + e2)"
| "float_mul (FInf s1) (FInf s2) = FInf (s1 \<noteq> s2)"
| "float_mul (FInf s1) (Fin s2 m2 e2) = (if m2 = 0 then FNaN else FInf (s1 \<noteq> s2))"
| "float_mul (Fin s1 m1 e1) (FInf s2) = (if m1 = 0 then FNaN else FInf (s1 \<noteq> s2))"
| "float_mul _ _ = FNaN"

text \<open>Division of floats; Python tests the divisor for zero before it divides.\<close>

fun float_div :: "pyfloat \<Rightarrow> pyfloat \<Rightarrow> pyfloat" where
  "float_div (Fin s1 m1 e1) (Fin s2 m2 e2) = float_round_scaled (s1 \<noteq> s2) m1 m2 (e1 - e2)"
| "float_div (FInf s1) (FInf s2) = FNaN"
| "float_div (FInf s1) (Fin s2 m2 e2) = FInf (s1 \<noteq> s2)"
| "float_div (Fin s1 m1 e1) (FInf s2) = Fin (s1 \<noteq> s2) 0 (- 1074)"
| "float_div _ _ = FNaN"

text \<open>\<open>float(n)\<close> for an int: \<open>OverflowError\<close> when \<open>n\<close> rounds beyond the largest float.\<close>

definition int_to_float :: "int \<Rightarrow> pyexn + pyfloat" where
  "int_to_float n =
     (case float_round (n < 0) (nat \<bar>n\<bar>) 1 of
        FInf s \<Rightarrow> Inl OverflowError
      | x \<Rightarrow> Inr x)"

text \<open>\<open>a / b\<close> for two ints: the correctly rounded quotient.\<close>

definition int_true_divide :: "int \<Rightarrow> int \<Rightarrow> pyexn + pyfloat" where
  "int_true_divide a b =
     (if b = 0 then Inl ZeroDivisionError
      else if a = 0 then Inr (Fin (b < 0) 0 (- 1074))
      else case float_round ((a < 0) \<noteq> (b < 0)) (nat \<bar>a\<bar>) (nat \<bar>b\<bar>) of
             FInf s \<Rightarrow> Inl OverflowError
           | x \<Rightarrow> Inr x)"

subsection \<open>Characters and numerals\<close>

text \<open>\<open>c in '+-*/'\<close> for a single character \<open>c\<close>.\<close>

definition is_operator :: "char \<Rightarrow> bool" where
  "is_operator c = (c \<in> set ''+-*/'')"

text \<open>The class \<open>\d\<close> of the \<open>re\<close> module, on code points below 256.\<close>

definition re_digit :: "char \<Rightarrow> bool" where
  "re_digit c = (c \<in> set ''0123456789'')"

text \<open>The class \<open>\s\<close> of the \<open>re\<close> module, on code points below 256.\<close>

definition re_space :: "char \<Rightarrow> bool" where
  "re_space c = (c \<in> {CHR 0x09, CHR 0x0A, CHR 0x0B, CHR 0x0C, CHR 0x0D, CHR 0x1C, CHR 0x1D,
     CHR 0x1E, CHR 0x1F, CHR 0x20, CHR 0x85, CHR 0xA0})"

definition digit_val :: "char \<Rightarrow> nat" where
  "digit_val c = of_char c - 48"

definition digits_value :: "string \<Rightarrow> nat" where
  "digits_value ds = foldl (\<lambda>n c. 10 * n + digit_val c) 0 ds"

definition digit_char :: "nat \<Rightarrow> char" where
  "digit_char d = ''0123456789'' ! d"

function str_nat :: "nat \<Rightarrow> string" where
  "str_nat n = (if n < 10 then [digit_char n] else str_nat (n div 10) @ [digit_char (n mod 10)])"
  by pat_completeness auto
termination
  by (relation "measure id") auto

declare str_nat.simps [simp del]

text \<open>
  \<open>str(n)\<close> for an int; a value of more than 4300 digits raises \<open>ValueError\<close>.
\<close>

definition py_str_int :: "int \<Rightarrow> pyexn + string" where
  "py_str_int n =
     (let ds = str_nat (nat \<bar>n\<bar>)
      in if 4300 < length ds then Inl ValueError
         else Inr ((if n < 0 then ''-'' else []) @ ds))"

text \<open>A string of decimal digits that is not empty.\<close>

definition digit_string :: "string \<Rightarrow> bool" where
  "digit_string ds = (ds \<noteq> [] \<and> (\<forall>c \<in> set ds. re_digit c))"

subsection \<open>Number literals\<close>

text \<open>
  A decimal integer literal: a run of zeros is \<open>0\<close>, any other leading zero is a syntax
  error, and so is a literal of more than 4300 digits.
\<close>

definition int_literal :: "string \<Rightarrow> pyexn + int" where
  "int_literal ds =
     (if \<forall>c \<in> set ds. c = CHR ''0'' then Inr 0
      else if hd ds = CHR ''0'' then Inl SyntaxError
      else if 4300 < length ds then Inl SyntaxError
      else Inr (int (digits_value ds)))"

text \<open>
  A float literal with integer part \<open>ip\<close> and fraction \<open>fp\<close> (either may be empty, not
  both) is the float nearest to its decimal value, an infinity when that is too large.
\<close>

definition float_literal :: "string \<Rightarrow> string \<Rightarrow> pyfloat" where
  "float_literal ip fp = float_round False (digits_value (ip @ fp)) (10 ^ length fp)"

subsection \<open>The tokenizer\<close>

datatype token = TInt int | TFloat pyfloat | TPlus | TMinus | TStar | TSlash | TLPar | TRPar

definition is_newline :: "char \<Rightarrow> bool" where
  "is_newline c = (c = CHR 0x0A \<or> c = CHR 0x0D)"

definition is_blank :: "char \<Rightarrow> bool" where
  "is_blank c = (c = CHR '' '' \<or> c = CHR 0x09 \<or> c = CHR 0x0C)"

text \<open>
  The start of a line outside parentheses, before the first token: blank lines are skipped,
  and the first line that is not blank must begin in column 0 (\<open>IndentationError\<close>
  otherwise). A form feed resets the column, a tab moves to the next multiple of 8.
  \<open>None\<close> is the error, \<open>Some r\<close> the text from the first token on.
\<close>

fun line_start :: "nat \<Rightarrow> string \<Rightarrow> string option" where
  "line_start col [] = (if col = 0 then Some [] else None)"
| "line_start col (c # cs) =
     (if c = CHR '' '' then line_start (col + 1) cs
      else if c = CHR 0x09 then line_start ((col div 8 + 1) * 8) cs
      else if c = CHR 0x0C then line_start 0 cs
      else if is_newline c then line_start 0 cs
      else if col = 0 then Some (c # cs) else None)"

text \<open>After the line of the expression only blank lines may follow.\<close>

fun blank_lines :: "nat \<Rightarrow> string \<Rightarrow> bool" where
  "blank_lines col [] = (col = 0)"
| "blank_lines col (c # cs) =
     (if c = CHR '' '' then blank_lines (col + 1) cs
      else if c = CHR 0x09 then blank_lines ((col div 8 + 1) * 8) cs
      else if c = CHR 0x0C then blank_lines 0 cs
      else is_newline c \<and> blank_lines 0 cs)"

definition cons_token :: "token \<Rightarrow> pyexn + token list \<Rightarrow> pyexn + token list" where
  "cons_token t r = (case r of Inl e \<Rightarrow> Inl e | Inr ts \<Rightarrow> Inr (t # ts))"

text \<open>
  The tokens of one logical line; \<open>depth\<close> counts the open parentheses, inside which line
  ends are white space. Every lexical error is a \<open>SyntaxError\<close>. A number is the longest
  run \<open>digits\<close>, \<open>digits.digits\<close>, \<open>digits.\<close> or \<open>.digits\<close>; a point with no digit beside it is
  the attribute operator, which no name can follow here.
\<close>

function tokenize :: "nat \<Rightarrow> string \<Rightarrow> pyexn + token list" where
  "tokenize depth [] = (if depth = 0 then Inr [] else Inl SyntaxError)"
| "tokenize depth (c # cs) =
     (if is_blank c then tokenize depth cs
      else if is_newline c then
        (if 0 < depth then tokenize depth cs
         else if blank_lines 0 cs then Inr [] else Inl SyntaxError)
      else if c = CHR ''('' then cons_token TLPar (tokenize (depth + 1) cs)
      else if c = CHR '')'' then
        (if depth = 0 then Inl SyntaxError else cons_token TRPar (tokenize (depth - 1) cs))
      else if c = CHR ''+'' then cons_token TPlus (tokenize depth cs)
      else if c = CHR ''-'' then cons_token TMinus (tokenize depth cs)
      else if c = CHR ''*'' then cons_token TStar (tokenize depth cs)
      else if c = CHR ''/'' then cons_token TSlash (tokenize depth cs)
      else if re_digit c then
        (case dropWhile re_digit cs of
           d # r \<Rightarrow>
             if d = CHR ''.''
             then cons_token (TFloat (float_literal (c # takeWhile re_digit cs) (takeWhile re_digit r)))
                    (tokenize depth (dropWhile re_digit r))
             else (case int_literal (c # takeWhile re_digit cs) of
                     Inl e \<Rightarrow> Inl e
                   | Inr n \<Rightarrow> cons_token (TInt n) (tokenize depth (d # r)))
         | [] \<Rightarrow>
             (case int_literal (c # takeWhile re_digit cs) of
                Inl e \<Rightarrow> Inl e
              | Inr n \<Rightarrow> Inr [TInt n]))
      else if c = CHR ''.'' then
        (if takeWhile re_digit cs = [] then Inl SyntaxError
         else cons_token (TFloat (float_literal [] (takeWhile re_digit cs)))
                (tokenize depth (dropWhile re_digit cs)))
      else Inl SyntaxError)"
  by pat_completeness auto
termination
proof (relation "measure (\<lambda>(depth, s). length s)", goal_cases)
  case (10 depth c cs d r)
  have "length (dropWhile re_digit r) \<le> length r"
    by (rule length_dropWhile_le)
  moreover have "length (dropWhile re_digit cs) \<le> length cs"
    by (rule length_dropWhile_le)
  ultimately show ?case
    using 10 by (auto dest: arg_cong [where f = length])
next
  case (11 depth c cs d r e)
  have "length (dropWhile re_digit cs) \<le> length cs"
    by (rule length_dropWhile_le)
  then show ?case
    using 11 by (auto dest: arg_cong [where f = length])
next
  case (12 depth c cs)
  have "length (dropWhile re_digit cs) \<le> length cs"
    by (rule length_dropWhile_le)
  then show ?case by auto
qed auto

declare tokenize.simps [simp del]

subsection \<open>The parser\<close>

text \<open>
  The expressions that the tokens can form: constants (numbers and the empty tuple \<open>()\<close>),
  unary and binary operators, and calls with no argument, one argument or one starred
  argument. Parentheses around an expression leave no node.
\<close>

datatype unop = UAdd | USub

datatype binop = Add | Sub | Mult | Div

datatype expr = Constant pyval
  | UnaryOp unop expr
  | BinOp expr binop expr
  | Call expr
  | Call1 expr expr
  | CallStar expr expr

text \<open>
  Recursive descent along the grammar of Python:
  \<^verbatim>\<open>sum: sum ('+'|'-') term | term\<close>,
  \<^verbatim>\<open>term: term ('*'|'/') factor | factor\<close>,
  \<^verbatim>\<open>factor: ('+'|'-') factor | primary\<close>,
  \<^verbatim>\<open>primary: primary '(' [['*'] sum] ')' | atom\<close>,
  \<^verbatim>\<open>atom: NUMBER | '(' ')' | '(' sum ')'\<close>.
  A parser returns the expression and the tokens left, \<open>None\<close> when the tokens do not match.
  The left-recursive rules are loops (\<open>sum_loop\<close>, \<open>term_loop\<close>, \<open>call_loop\<close>) that extend
  the operand on the left. The tests \<open>length r < length ts\<close> make the recursion visibly
  well-founded; a parser that succeeds has always consumed a token, so they never fail
  (lemma \<open>parse_shorter\<close> below).
\<close>

function parse_sum :: "token list \<Rightarrow> (expr \<times> token list) option"
  and sum_loop :: "expr \<Rightarrow> token list \<Rightarrow> (expr \<times> token list) option"
  and parse_term :: "token list \<Rightarrow> (expr \<times> token list) option"
  and term_loop :: "expr \<Rightarrow> token list \<Rightarrow> (expr \<times> token list) option"
  and parse_factor :: "token list \<Rightarrow> (expr \<times> token list) option"
  and parse_primary :: "token list \<Rightarrow> (expr \<times> token list) option"
  and call_loop :: "expr \<Rightarrow> token list \<Rightarrow> (expr \<times> token list) option"
  and parse_atom :: "token list \<Rightarrow> (expr \<times> token list) option"
where
  "parse_sum ts =
     (case parse_term ts of
        None \<Rightarrow> None
      | Some (l, r) \<Rightarrow> if length r < length ts then sum_loop l r else None)"
| "sum_loop l [] = Some (l, [])"
| "sum_loop l (t # ts) =
     (if t = TPlus \<or> t = TMinus then
        (case parse_term ts of
           None \<Rightarrow> None
         | Some (x, r) \<Rightarrow>
             if length r < length ts
             then sum_loop (BinOp l (if t = TPlus then Add else Sub) x) r else None)
      else Some (l, t # ts))"
| "parse_term ts =
     (case parse_factor ts of
        None \<Rightarrow> None
      | Some (l, r) \<Rightarrow> if length r < length ts then term_loop l r else None)"
| "term_loop l [] = Some (l, [])"
| "term_loop l (t # ts) =
     (if t = TStar \<or> t = TSlash then
        (case parse_factor ts of
           None \<Rightarrow> None
         | Some (x, r) \<Rightarrow>
             if length r < length ts
             then term_loop (BinOp l (if t = TStar then Mult else Div) x) r else None)
      else Some (l, t # ts))"
| "parse_factor [] = None"
| "parse_factor (t # ts) =
     (if t = TPlus \<or> t = TMinus then
        (case parse_factor ts of
           None \<Rightarrow> None
         | Some (x, r) \<Rightarrow> Some (UnaryOp (if t = TPlus then UAdd else USub) x, r))
      else parse_primary (t # ts))"
| "parse_primary ts =
     (case parse_atom ts of
        None \<Rightarrow> None
      | Some (a, r) \<Rightarrow> if length r < length ts then call_loop a r else None)"
| "call_loop f [] = Some (f, [])"
| "call_loop f (t # ts) =
     (if t = TLPar then
        (case ts of
           [] \<Rightarrow> None
         | u # us \<Rightarrow>
             if u = TRPar then call_loop (Call f) us
             else if u = TStar then
               (case parse_sum us of
                  Some (a, v # r) \<Rightarrow>
                    if v = TRPar \<and> length r < length us then call_loop (CallStar f a) r else None
                | _ \<Rightarrow> None)
             else
               (case parse_sum (u # us) of
                  Some (a, v # r) \<Rightarrow>
                    if v = TRPar \<and> length r < length us then call_loop (Call1 f a) r else None
                | _ \<Rightarrow> None))
      else Some (f, t # ts))"
| "parse_atom [] = None"
| "parse_atom (t # ts) =
     (case t of
        TInt n \<Rightarrow> Some (Constant (PInt n), ts)
      | TFloat x \<Rightarrow> Some (Constant (PFloat x), ts)
      | TLPar \<Rightarrow>
          (case ts of
             [] \<Rightarrow> None
           | u # us \<Rightarrow>
               if u = TRPar then Some (Constant PTuple, us)
               else (case parse_sum (u # us) of
                       Some (e, v # r) \<Rightarrow> if v = TRPar then Some (e, r) else None
                     | _ \<Rightarrow> None))
      | _ \<Rightarrow> None)"
  by pat_completeness auto
termination
  by (relation "inv_image (less_than <*lex*> less_than)
       (\<lambda>x. case x of
          Inl (Inl (Inl ts)) \<Rightarrow> (length ts, 5)
        | Inl (Inl (Inr (l, ts))) \<Rightarrow> (length ts, 0)
        | Inl (Inr (Inl ts)) \<Rightarrow> (length ts, 4)
        | Inl (Inr (Inr (l, ts))) \<Rightarrow> (length ts, 0)
        | Inr (Inl (Inl ts)) \<Rightarrow> (length ts, 3)
        | Inr (Inl (Inr ts)) \<Rightarrow> (length ts, 2)
        | Inr (Inr (Inl (f, ts))) \<Rightarrow> (length ts, 0)
        | Inr (Inr (Inr ts)) \<Rightarrow> (length ts, 1::nat))") auto

declare parse_sum.simps [simp del] sum_loop.simps [simp del] parse_term.simps [simp del]
  term_loop.simps [simp del] parse_factor.simps [simp del] parse_primary.simps [simp del]
  call_loop.simps [simp del] parse_atom.simps [simp del]

text \<open>The whole token list must be one expression.\<close>

definition py_parse :: "token list \<Rightarrow> pyexn + expr" where
  "py_parse ts =
     (case parse_sum ts of
        Some (e, []) \<Rightarrow> Inr e
      | _ \<Rightarrow> Inl SyntaxError)"

subsection \<open>Evaluation\<close>

definition to_float :: "pyval \<Rightarrow> pyexn + pyfloat" where
  "to_float v = (case v of PInt n \<Rightarrow> int_to_float n | PFloat x \<Rightarrow> Inr x | PTuple \<Rightarrow> Inl TypeError)"

text \<open>
  A binary operation of floats: both operands are converted (the left one first), then
  the operation is applied.
\<close>

definition float_arith :: "(pyfloat \<Rightarrow> pyfloat \<Rightarrow> pyfloat) \<Rightarrow> pyval \<Rightarrow> pyval \<Rightarrow> pyexn + pyval" where
  "float_arith f a b =
     (case to_float a of
        Inl e \<Rightarrow> Inl e
      | Inr x \<Rightarrow> (case to_float b of Inl e \<Rightarrow> Inl e | Inr y \<Rightarrow> Inr (PFloat (f x y))))"

text \<open>
  The repetition \<open>() * n\<close> (or \<open>n * ()\<close>) of the empty tuple is the empty tuple, for a count
  that fits a machine word.
\<close>

definition tuple_repeat :: "int \<Rightarrow> pyexn + pyval" where
  "tuple_repeat n = (if - (2 ^ 63) \<le> n \<and> n < 2 ^ 63 then Inr PTuple else Inl OverflowError)"

fun binary_op :: "binop \<Rightarrow> pyval \<Rightarrow> pyval \<Rightarrow> pyexn + pyval" where
  "binary_op Add (PInt a) (PInt b) = Inr (PInt (a + b))"
| "binary_op Add PTuple PTuple = Inr PTuple"
| "binary_op Add a b = float_arith float_add a b"
| "binary_op Sub (PInt a) (PInt b) = Inr (PInt (a - b))"
| "binary_op Sub a b = float_arith float_sub a b"
| "binary_op Mult (PInt a) (PInt b) = Inr (PInt (a * b))"
| "binary_op Mult PTuple (PInt n) = tuple_repeat n"
| "binary_op Mult (PInt n) PTuple = tuple_repeat n"
| "binary_op Mult a b = float_arith float_mul a b"
| "binary_op Div (PInt a) (PInt b) =
     (case int_true_divide a b of Inl e \<Rightarrow> Inl e | Inr x \<Rightarrow> Inr (PFloat x))"
| "binary_op Div a b =
     (case to_float a of
        Inl e \<Rightarrow> Inl e
      | Inr x \<Rightarrow>
          (case to_float b of
             Inl e \<Rightarrow> Inl e
           | Inr y \<Rightarrow> if float_is_zero y then Inl ZeroDivisionError else Inr (PFloat (float_div x y))))"

fun unary_op :: "unop \<Rightarrow> pyval \<Rightarrow> pyexn + pyval" where
  "unary_op UAdd (PInt n) = Inr (PInt n)"
| "unary_op USub (PInt n) = Inr (PInt (- n))"
| "unary_op UAdd (PFloat x) = Inr (PFloat x)"
| "unary_op USub (PFloat x) = Inr (PFloat (float_neg x))"
| "unary_op u PTuple = Inl TypeError"

text \<open>
  Operands are evaluated from left to right, and the first exception ends the evaluation.
  A call evaluates the callee and the argument and fails then: no value here is callable.
\<close>

fun eval_expr :: "expr \<Rightarrow> pyexn + pyval" where
  "eval_expr (Constant v) = Inr v"
| "eval_expr (UnaryOp u x) =
     (case eval_expr x of Inl e \<Rightarrow> Inl e | Inr v \<Rightarrow> unary_op u v)"
| "eval_expr (BinOp l b r) =
     (case eval_expr l of
        Inl e \<Rightarrow> Inl e
      | Inr v \<Rightarrow> (case eval_expr r of Inl e \<Rightarrow> Inl e | Inr w \<Rightarrow> binary_op b v w))"
| "eval_expr (Call f) =
     (case eval_expr f of Inl e \<Rightarrow> Inl e | Inr v \<Rightarrow> Inl TypeError)"
| "eval_expr (Call1 f a) =
     (case eval_expr f of
        Inl e \<Rightarrow> Inl e
      | Inr v \<Rightarrow> (case eval_expr a of Inl e \<Rightarrow> Inl e | Inr w \<Rightarrow> Inl TypeError))"
| "eval_expr (CallStar f a) =
     (case eval_expr f of
        Inl e \<Rightarrow> Inl e
      | Inr v \<Rightarrow> (case eval_expr a of Inl e \<Rightarrow> Inl e | Inr w \<Rightarrow> Inl TypeError))"

text \<open>
  \<open>eval(source, {"__builtins__": {}}, {})\<close>: leading spaces and tabs are stripped and the
  text is tokenized and parsed (\<open>py_compile\<close>; any failure is a \<open>SyntaxError\<close>, before
  anything is evaluated); then the expression is evaluated.
\<close>

definition py_compile :: "string \<Rightarrow> pyexn + expr" where
  "py_compile source =
     (case line_start 0 (dropWhile (\<lambda>c. c = CHR '' '' \<or> c = CHR 0x09) source) of
        None \<Rightarrow> Inl SyntaxError
      | Some r \<Rightarrow> (case tokenize 0 r of Inl e \<Rightarrow> Inl e | Inr ts \<Rightarrow> py_parse ts))"

definition py_eval :: "string \<Rightarrow> pyexn + pyval" where
  "py_eval source = (case py_compile source of Inl e \<Rightarrow> Inl e | Inr x \<Rightarrow> eval_expr x)"

text \<open>
  For the statements about divisions: \<open>arithmetic x\<close> holds when \<open>x\<close> consists of numbers
  and operators only (no empty tuple, no call); \<open>zero_value v\<close> when \<open>v\<close> is the int \<open>0\<close> or a
  float zero; \<open>divides_by_zero x\<close> when \<open>x\<close> contains a division whose divisor evaluates to
  such a value.
\<close>

fun arithmetic :: "expr \<Rightarrow> bool" where
  "arithmetic (Constant v) = (v \<noteq> PTuple)"
| "arithmetic (UnaryOp u x) = arithmetic x"
| "arithmetic (BinOp l b r) = (arithmetic l \<and> arithmetic r)"
| "arithmetic _ = False"

fun zero_value :: "pyval \<Rightarrow> bool" where
  "zero_value (PInt n) = (n = 0)"
| "zero_value (PFloat x) = float_is_zero x"
| "zero_value PTuple = False"

fun divides_by_zero :: "expr \<Rightarrow> bool" where
  "divides_by_zero (Constant v) = False"
| "divides_by_zero (UnaryOp u x) = divides_by_zero x"
| "divides_by_zero (BinOp l b r) =
     (divides_by_zero l \<or> divides_by_zero r \<or>
      (b = Div \<and> (case eval_expr r of Inl e \<Rightarrow> False | Inr v \<Rightarrow> zero_value v)))"
| "divides_by_zero (Call f) = divides_by_zero f"
| "divides_by_zero (Call1 f a) = (divides_by_zero f \<or> divides_by_zero a)"
| "divides_by_zero (CallStar f a) = (divides_by_zero f \<or> divides_by_zero a)"

subsection \<open>Expressions without parentheses\<close>














subsection \<open>Conversions of the result\<close>

text \<open>\<open>int(x)\<close> truncates a float towards zero; it raises on an infinity and on a NaN.\<close>

fun float_trunc :: "pyfloat \<Rightarrow> pyexn + int" where
  "float_trunc (Fin s m e) =
     Inr (if 0 \<le> e then signed s (m * 2 ^ nat e) else signed s (m div 2 ^ nat (- e)))"
| "float_trunc (FInf s) = Inl OverflowError"
| "float_trunc FNaN = Inl ValueError"

fun py_int :: "pyval \<Rightarrow> pyexn + int" where
  "py_int (PInt n) = Inr n"
| "py_int (PFloat x) = float_trunc x"
| "py_int PTuple = Inl TypeError"

text \<open>\<open>x == n\<close> for a float and an int compares the exact values.\<close>

fun float_eq_int :: "pyfloat \<Rightarrow> int \<Rightarrow> bool" where
  "float_eq_int (Fin s m e) n =
     (if 0 \<le> e then signed s m * 2 ^ nat e = n else signed s m = n * 2 ^ nat (- e))"
| "float_eq_int _ n = False"

fun py_eq_int :: "pyval \<Rightarrow> int \<Rightarrow> bool" where
  "py_eq_int (PInt a) n = (a = n)"
| "py_eq_int (PFloat x) n = float_eq_int x n"
| "py_eq_int PTuple n = False"

text \<open>\<open>result == float('inf') or result == float('-inf')\<close>.\<close>

fun is_infinite :: "pyval \<Rightarrow> bool" where
  "is_infinite (PFloat (FInf s)) = True"
| "is_infinite _ = False"

subsection \<open>The shortest representation of a float\<close>

text \<open>
  \<open>str(x)\<close> for a float is the shortest decimal string that rounds to \<open>x\<close>, the nearest to
  \<open>x\<close> among those. For \<open>x = a / d > 0\<close>, \<open>decimal_point a d\<close> is the \<open>p\<close> with
  \<open>10\<^sup>p\<^sup>-\<^sup>1 \<le> x < 10\<^sup>p\<close>.
\<close>

function lead_zeros :: "nat \<Rightarrow> nat \<Rightarrow> nat" where
  "lead_zeros a d = (if a = 0 \<or> d \<le> a * 10 then 0 else Suc (lead_zeros (a * 10) d))"
  by pat_completeness auto
termination
  by (relation "measure (\<lambda>(a, d). d - a)") auto

declare lead_zeros.simps [simp del]

definition decimal_point :: "nat \<Rightarrow> nat \<Rightarrow> int" where
  "decimal_point a d =
     (if d \<le> a then int (length (str_nat (a div d))) else - int (lead_zeros a d))"

text \<open>\<open>c * 10\<^sup>j\<close> as a float, for the round-trip test.\<close>

definition decimal_to_float :: "nat \<Rightarrow> int \<Rightarrow> pyfloat" where
  "decimal_to_float c j =
     (if 0 \<le> j then float_round False (c * 10 ^ nat j) 1 else float_round False c (10 ^ nat (- j)))"

text \<open>
  The search for the digits: with \<open>k\<close> digits the candidates are the two \<open>k\<close>-digit decimals
  around \<open>x\<close>; 17 digits always suffice. The result is the digit string and the position of
  the decimal point after rounding (one more when the digits rounded up to a power of 10).
\<close>

function shortest_digits :: "nat \<Rightarrow> nat \<Rightarrow> nat \<Rightarrow> int \<Rightarrow> int \<Rightarrow> nat \<Rightarrow> string \<times> int" where
  "shortest_digits a d m e p k =
     (let j = p - int k;
          num = (if 0 \<le> j then a else a * 10 ^ nat (- j));
          den = (if 0 \<le> j then d * 10 ^ nat j else d);
          lo = num div den;
          r = num mod den;
          lo_ok = (decimal_to_float lo j = Fin False m e);
          hi_ok = (decimal_to_float (lo + 1) j = Fin False m e);
          up = (den < 2 * r \<or> (2 * r = den \<and> odd lo));
          c = (if lo_ok \<and> hi_ok then (if up then lo + 1 else lo)
               else if hi_ok then lo + 1 else lo)
      in if lo_ok \<or> hi_ok \<or> 17 \<le> k
         then (if c = 10 ^ k then (''1'', p + 1) else (str_nat c, p))
         else shortest_digits a d m e p (k + 1))"
  by pat_completeness auto
termination
  by (relation "measure (\<lambda>(a, d, m, e, p, k). 17 - k)") auto

declare shortest_digits.simps [simp del]

text \<open>The exponent of the scientific notation has a sign and at least two digits.\<close>

definition exponent_str :: "int \<Rightarrow> string" where
  "exponent_str x =
     (if x < 0 then ''-'' else ''+'') @
     (if \<bar>x\<bar> < 10 then ''0'' else []) @ str_nat (nat \<bar>x\<bar>)"

definition format_digits :: "string \<Rightarrow> int \<Rightarrow> string" where
  "format_digits ds p =
     (if p \<le> - 4 \<or> 16 < p then
        hd ds # (if 1 < length ds then CHR ''.'' # tl ds else []) @ ''e'' @ exponent_str (p - 1)
      else if p \<le> 0 then ''0.'' @ replicate (nat (- p)) CHR ''0'' @ ds
      else if nat p < length ds then take (nat p) ds @ ''.'' @ drop (nat p) ds
      else ds @ replicate (nat p - length ds) CHR ''0'' @ ''.0'')"

fun float_repr :: "pyfloat \<Rightarrow> string" where
  "float_repr FNaN = ''nan''"
| "float_repr (FInf s) = (if s then ''-inf'' else ''inf'')"
| "float_repr (Fin s m e) =
     (if s then ''-'' else []) @
     (if m = 0 then ''0.0''
      else
        let a = (if 0 \<le> e then m * 2 ^ nat e else m);
            d = (if 0 \<le> e then 1 else 2 ^ nat (- e));
            (ds, p) = shortest_digits a d m e (decimal_point a d) 1
        in format_digits ds p)"

text \<open>\<open>str(result)\<close> where the program applies it to the result itself.\<close>

fun py_str :: "pyval \<Rightarrow> pyexn + string" where
  "py_str (PInt n) = py_str_int n"
| "py_str (PFloat x) = Inr (float_repr x)"
| "py_str PTuple = Inr ''()''"

section \<open>The evaluator\<close>

subsection \<open>\<open>is_safe_expression\<close>\<close>

text \<open>\<open>re.search(r'[+\-*/]{2,}', expression)\<close>: two operator characters side by side.\<close>

fun adjacent_operators :: "string \<Rightarrow> bool" where
  "adjacent_operators (c # d # cs) = ((is_operator c \<and> is_operator d) \<or> adjacent_operators (d # cs))"
| "adjacent_operators _ = False"

text \<open>
  \<open>re.search(r'\.\d*\.', expression)\<close>: \<open>digits_then_dot\<close> matches \<open>\d*\.\<close> at the start of
  its argument, \<open>double_dot\<close> looks for a point followed by such a match.
\<close>

fun digits_then_dot :: "string \<Rightarrow> bool" where
  "digits_then_dot [] = False"
| "digits_then_dot (c # cs) = (c = CHR ''.'' \<or> (re_digit c \<and> digits_then_dot cs))"

fun double_dot :: "string \<Rightarrow> bool" where
  "double_dot [] = False"
| "double_dot (c # cs) = ((c = CHR ''.'' \<and> digits_then_dot cs) \<or> double_dot cs)"

text \<open>
  \<open>re.match(r'^[\d+\-*/.()\s]+$', expression)\<close>: the class contains the line feed, so the
  pattern matches exactly the strings that are not empty and lie in the class.
\<close>

definition safe_char :: "char \<Rightarrow> bool" where
  "safe_char c = (re_digit c \<or> c \<in> set ''+-*/.()'' \<or> re_space c)"

definition safe_pattern :: "string \<Rightarrow> bool" where
  "safe_pattern e = (e \<noteq> [] \<and> (\<forall>c \<in> set e. safe_char c))"

definition is_safe_expression :: "string \<Rightarrow> bool" where
  "is_safe_expression expression =
     (if adjacent_operators expression then False
      else if double_dot expression then False
      else if expression \<noteq> [] \<and> hd expression \<in> set ''+*/'' then False
      else if count_list expression CHR ''('' \<noteq> count_list expression CHR '')'' then False
      else safe_pattern expression)"

subsection \<open>The state\<close>

text \<open>
  The three attributes of \<open>CalculatorLayout\<close> that the core reads and writes. The Kivy
  properties are plain attributes here.
\<close>

record state =
  display_text :: string
  last_result :: pyval
  new_expression :: bool

definition initial_state :: state where
  "initial_state = \<lparr>display_text = ''0'', last_result = PInt 0, new_expression = True\<rparr>"

subsection \<open>\<open>evaluate_expression\<close>\<close>

text \<open>The loop that removes the trailing operators.\<close>

function strip_trailing_operators :: "string \<Rightarrow> string" where
  "strip_trailing_operators expression =
     (if expression \<noteq> [] \<and> is_operator (last expression)
      then strip_trailing_operators (butlast expression) else expression)"
  by pat_completeness auto
termination
  by (relation "measure length") auto

declare strip_trailing_operators.simps [simp del]

text \<open>
  The body of the \<open>try\<close> statement. It ends normally with a new state, or raises; an
  exception carries the state at the moment it is raised, which the handlers update.
  When the result is an infinity the program sets the display and then reads the local
  variable \<open>formatted_result\<close> that no branch has assigned: an \<open>UnboundLocalError\<close>.
\<close>

definition try_body :: "state \<Rightarrow> string \<Rightarrow> (pyexn \<times> state) + state" where
  "try_body s expression =
     (if \<not> is_safe_expression expression then Inr (s\<lparr>display_text := ''Error''\<rparr>)
      else
        (case py_eval expression of
           Inl e \<Rightarrow> Inl (e, s)
         | Inr result \<Rightarrow>
             if result = PTuple then Inr (s\<lparr>display_text := ''Error''\<rparr>)
             else if is_infinite result then Inl (NameError, s\<lparr>display_text := ''Error''\<rparr>)
             else
               (case py_int result of
                  Inl e \<Rightarrow> Inl (e, s)
                | Inr n \<Rightarrow>
                    (case (if py_eq_int result n then py_str_int n else py_str result) of
                       Inl e \<Rightarrow> Inl (e, s)
                     | Inr formatted_result \<Rightarrow>
                         Inr (s\<lparr>display_text := formatted_result, last_result := result,
                               new_expression := True\<rparr>)))))"

text \<open>
  The handlers: \<open>ZeroDivisionError\<close>, then \<open>SyntaxError\<close>, \<open>NameError\<close>, \<open>TypeError\<close> and
  \<open>ValueError\<close>. Any other exception leaves \<open>evaluate_expression\<close>.
\<close>

definition evaluate_expression :: "state \<Rightarrow> pyexn + state" where
  "evaluate_expression s =
     (let expression = strip_trailing_operators (display_text s)
      in if expression = [] then Inr (s\<lparr>display_text := ''0''\<rparr>)
         else
           (case try_body s expression of
              Inr s' \<Rightarrow> Inr s'
            | Inl (e, s') \<Rightarrow>
                if e = ZeroDivisionError
                then Inr (s'\<lparr>display_text := ''Error: Div/0'', new_expression := True\<rparr>)
                else if e \<in> {SyntaxError, NameError, TypeError, ValueError}
                then Inr (s'\<lparr>display_text := ''Error'', new_expression := True\<rparr>)
                else Inl e))"

section \<open>The input buffer\<close>

text \<open>\<open>value in text\<close> for two strings: \<open>value\<close> occurs in \<open>text\<close> as a substring.\<close>

fun py_in :: "string \<Rightarrow> string \<Rightarrow> bool" where
  "py_in v [] = (v = [])"
| "py_in v (c # cs) = (take (length v) (c # cs) = v \<or> py_in v cs)"

text \<open>
  \<open>value.isdigit()\<close>: the string is not empty and all its characters are digits; below
  code point 256 these are the decimal digits and the superscripts 1, 2 and 3.
\<close>

definition isdigit :: "string \<Rightarrow> bool" where
  "isdigit v = (v \<noteq> [] \<and> (\<forall>c \<in> set v. re_digit c \<or> c \<in> {CHR 0xB2, CHR 0xB3, CHR 0xB9}))"

text \<open>
  \<open>re.split(r'([+\-*/])', text)\<close>: the parts between the operator characters, with the
  operators themselves; the list is never empty.
\<close>

fun re_split_operators :: "string \<Rightarrow> string list" where
  "re_split_operators [] = [[]]"
| "re_split_operators (c # cs) =
     (if is_operator c then [] # [c] # re_split_operators cs
      else (case re_split_operators cs of
              [] \<Rightarrow> [[c]]
            | part # parts \<Rightarrow> (c # part) # parts))"

text \<open>
  \<open>process_input\<close>, with the state passed and returned. The only exceptions come from
  \<open>evaluate_expression\<close>.
\<close>

definition process_input :: "state \<Rightarrow> string \<Rightarrow> pyexn + state" where
  "process_input s v =
     (let current_text = display_text s
      in if new_expression s \<and> \<not> py_in v ''+-*/'' then
           (if isdigit v \<or> v = ''.''
            then Inr (s\<lparr>display_text := v, new_expression := False\<rparr>)
            else Inr s)
         else if v = ''C'' then
           Inr (s\<lparr>display_text := ''0'', last_result := PInt 0, new_expression := True\<rparr>)
         else if v = ''DEL'' then
           (if 1 < length current_text
            then Inr (s\<lparr>display_text := butlast current_text\<rparr>)
            else Inr (s\<lparr>display_text := ''0''\<rparr>))
         else if v = ''='' then evaluate_expression s
         else if py_in v ''+-*/'' then
           (if current_text \<noteq> [] \<and> is_operator (last current_text)
            then Inr (s\<lparr>display_text := butlast current_text @ v, new_expression := False\<rparr>)
            else Inr (s\<lparr>display_text := current_text @ v, new_expression := False\<rparr>))
         else if current_text = ''0'' \<and> v \<noteq> ''.'' then
           Inr (s\<lparr>display_text := v, new_expression := False\<rparr>)
         else if v = ''.'' \<and> CHR ''.'' \<in> set (last (re_split_operators current_text)) then
           Inr s
         else Inr (s\<lparr>display_text := current_text @ v, new_expression := False\<rparr>))"

text \<open>The values that the buttons of the front end send.\<close>

definition digit_values :: "string list" where
  "digit_values = map (\<lambda>c. [c]) ''0123456789''"

definition operator_values :: "string list" where
  "operator_values = [''+'', ''-'', ''*'', ''/'']"

definition button_values :: "string list" where
  "button_values = [''C'', ''DEL'', ''=''] @ operator_values @ digit_values @ [''.'']"

text \<open>A sequence of inputs; an exception that escapes ends it.\<close>

fun process_inputs :: "state \<Rightarrow> string list \<Rightarrow> pyexn + state" where
  "process_inputs s [] = Inr s"
| "process_inputs s (v # vs) =
     (case process_input s v of Inl e \<Rightarrow> Inl e | Inr s' \<Rightarrow> process_inputs s' vs)"

text \<open>The states that the buttons can produce from the initial state.\<close>

inductive reachable :: "state \<Rightarrow> bool" where
  reachable_init: "reachable initial_state"
| reachable_step:
    "reachable s \<Longrightarrow> v \<in> set button_values \<Longrightarrow> process_input s v = Inr s' \<Longrightarrow> reachable s'"

section \<open>Simplification sets for concrete inputs\<close>

lemmas lex_simps = tokenize.simps is_blank_def is_newline_def re_digit_def cons_token_def
  int_literal_def float_literal_def digits_value_def digit_val_def

lemmas parse_simps = parse_sum.simps sum_loop.simps parse_term.simps term_loop.simps
  parse_factor.simps parse_primary.simps call_loop.simps parse_atom.simps py_parse_def


lemmas safe_simps = is_safe_expression_def safe_pattern_def safe_char_def re_digit_def
  is_operator_def re_space_def

lemmas input_simps = process_input_def isdigit_def re_digit_def is_operator_def Let_def

section \<open>Properties of the model of Python\<close>

subsection \<open>Rounding\<close>

lemma bit_length_Suc: "n \<noteq> 0 \<Longrightarrow> bit_length n = Suc (bit_length (n div 2))"
  by (subst bit_length.simps) simp

lemma bit_length_lower: "2 ^ j \<le> n \<Longrightarrow> j < bit_length n"
proof (induction j arbitrary: n)
  case 0
  then have "n \<noteq> 0" by auto
  then show ?case by (simp add: bit_length_Suc)
next
  case (Suc j)
  have a: "2 ^ j \<le> n div 2" using Suc.prems by simp
  have "0 < (2::nat) ^ Suc j" by simp
  then have "n \<noteq> 0" using Suc.prems by linarith
  then show ?case using Suc.IH [OF a] by (simp add: bit_length_Suc)
qed

lemma bit_length_upper: "n < 2 ^ bit_length n"
proof (induction n rule: bit_length.induct)
  case (1 n)
  show ?case
  proof (cases "n = 0")
    case True
    then show ?thesis by simp
  next
    case False
    have "n div 2 < 2 ^ bit_length (n div 2)" using 1 False by simp
    then show ?thesis unfolding bit_length_Suc [OF False] by simp
  qed
qed

lemma bit_length_pow_le: "n \<noteq> 0 \<Longrightarrow> 2 ^ (bit_length n - 1) \<le> n"
proof (induction n rule: bit_length.induct)
  case (1 n)
  show ?case
  proof (cases "n div 2 = 0")
    case True
    then have "n = 1" using 1(2) by (cases n) auto
    then show ?thesis by (simp add: bit_length.simps)
  next
    case False
    have ih: "2 ^ (bit_length (n div 2) - 1) \<le> n div 2" using 1 False by simp
    have "bit_length (n div 2) \<noteq> 0" using False by (simp add: bit_length_Suc)
    then have "(2::nat) ^ bit_length (n div 2) = 2 * 2 ^ (bit_length (n div 2) - 1)"
      by (cases "bit_length (n div 2)") simp_all
    also have "\<dots> \<le> 2 * (n div 2)" using ih by simp
    also have "\<dots> \<le> n" by simp
    finally show ?thesis using 1(2) by (simp add: bit_length_Suc)
  qed
qed

lemma float_round_overflow:
  assumes d: "0 < d" and big: "d * 2 ^ 1024 \<le> a"
  shows "float_round s a d = FInf s"
proof -
  have apos: "a \<noteq> 0"
  proof
    assume "a = 0"
    then have "d * 2 ^ 1024 = 0" using big by simp
    then show False using d by simp
  qed
  define k where "k = int (bit_length a) - int (bit_length d)"
  have "(2::nat) ^ (bit_length d - 1 + 1024) = 2 ^ (bit_length d - 1) * 2 ^ 1024"
    by (simp only: power_add)
  also have "\<dots> \<le> d * 2 ^ 1024"
    using bit_length_pow_le [of d] d by (intro mult_right_mono) simp_all
  finally have "2 ^ (bit_length d - 1 + 1024) \<le> a" using big by (rule order_trans)
  then have "bit_length d - 1 + 1024 < bit_length a" by (rule bit_length_lower)
  moreover have "bit_length d \<noteq> 0" using d by (simp add: bit_length_Suc)
  ultimately have k: "1024 \<le> k" unfolding k_def by linarith
  have ex: "1024 \<le> (if ge_pow2 a d k then k else k - 1)"
  proof (cases "k = 1024")
    case True
    then have "ge_pow2 a d k" using big by (simp add: ge_pow2_def)
    then show ?thesis using k by simp
  next
    case False
    then show ?thesis using k by simp
  qed
  show ?thesis
    unfolding float_round_def Let_def k_def [symmetric]
    using ex apos by (simp split: if_splits)
qed

lemma int_true_divide_overflow: "342 \<le> n \<Longrightarrow> int_true_divide (10 ^ n) 1 = Inl OverflowError"
proof -
  assume n: "342 \<le> n"
  have "(2::nat) ^ 1024 \<le> 2 ^ (3 * n)" using n by (intro power_increasing) simp_all
  also have "\<dots> = 8 ^ n" by (simp add: power_mult)
  also have "\<dots> \<le> 10 ^ n" by (intro power_mono) simp_all
  finally have "1 * 2 ^ 1024 \<le> (10::nat) ^ n" by simp
  then have "float_round False (10 ^ n) 1 = FInf False"
    by (intro float_round_overflow) simp_all
  then show ?thesis by (simp add: int_true_divide_def nat_power_eq)
qed

subsection \<open>Tokens of digit runs\<close>

lemma re_digit_plain:
  "re_digit c \<Longrightarrow> \<not> is_blank c \<and> \<not> is_newline c \<and> \<not> is_operator c \<and>
     c \<noteq> CHR ''+'' \<and> c \<noteq> CHR ''-'' \<and> c \<noteq> CHR ''*'' \<and> c \<noteq> CHR ''/'' \<and>
     c \<noteq> CHR ''('' \<and> c \<noteq> CHR '')'' \<and> c \<noteq> CHR ''.''"
  by (auto simp: re_digit_def is_blank_def is_newline_def is_operator_def)

lemma takeWhile_digits:
  "\<forall>x \<in> set cs. re_digit x \<Longrightarrow> rest = [] \<or> \<not> re_digit (hd rest) \<Longrightarrow>
   takeWhile re_digit (cs @ rest) = cs \<and> dropWhile re_digit (cs @ rest) = rest"
  by (cases rest) (auto simp: takeWhile_append2 dropWhile_append2)

lemma tokenize_int:
  assumes c: "re_digit c" and cs: "\<forall>x \<in> set cs. re_digit x"
    and rest: "rest = [] \<or> (\<not> re_digit (hd rest) \<and> hd rest \<noteq> CHR ''.'')"
  shows "tokenize 0 (c # cs @ rest) =
    (case int_literal (c # cs) of
       Inl e \<Rightarrow> Inl e
     | Inr n \<Rightarrow> cons_token (TInt n) (tokenize 0 rest))"
proof -
  have tw: "takeWhile re_digit (cs @ rest) = cs" "dropWhile re_digit (cs @ rest) = rest"
    using takeWhile_digits [OF cs, of rest] rest by auto
  note p = re_digit_plain [OF c]
  show ?thesis
  proof (cases rest)
    case Nil
    have tw': "takeWhile re_digit cs = cs" "dropWhile re_digit cs = []"
      using tw Nil by simp_all
    show ?thesis
      unfolding Nil append_Nil2
      by (subst tokenize.simps)
        (simp add: p c tw' tokenize.simps(1) cons_token_def split: sum.splits)
  next
    case (Cons d r)
    then have d: "d \<noteq> CHR ''.''" using rest by simp
    have tw': "takeWhile re_digit (cs @ d # r) = cs" "dropWhile re_digit (cs @ d # r) = d # r"
      using tw Cons by simp_all
    show ?thesis
      unfolding Cons
      by (subst tokenize.simps) (simp add: p c tw' d)
  qed
qed

lemma digits_value_snoc: "digits_value (ds @ [c]) = 10 * digits_value ds + digit_val c"
  by (simp add: digits_value_def)

lemma digits_value_zeros: "digits_value (ds @ replicate n CHR ''0'') = digits_value ds * 10 ^ n"
proof (induction n)
  case 0
  then show ?case by simp
next
  case (Suc n)
  have "digits_value (ds @ replicate (Suc n) CHR ''0'') = digits_value ((ds @ replicate n CHR ''0'') @ [CHR ''0''])"
    by (simp add: replicate_append_same)
  also have "\<dots> = 10 * digits_value (ds @ replicate n CHR ''0'')"
    by (simp only: digits_value_snoc) (simp add: digit_val_def)
  finally show ?case using Suc by simp
qed

lemma int_literal_one_zeros:
  "n < 4300 \<Longrightarrow> int_literal (CHR ''1'' # replicate n CHR ''0'') = Inr (10 ^ n)"
  using digits_value_zeros [of "''1''" n]
  by (simp add: int_literal_def digits_value_def digit_val_def)

lemma tokenize_one_zeros_div_1:
  assumes "n < 4300"
  shows "tokenize 0 (CHR ''1'' # replicate n CHR ''0'' @ ''/1'') = Inr [TInt (10 ^ n), TSlash, TInt 1]"
proof -
  have t: "tokenize 0 ''/1'' = Inr [TSlash, TInt 1]"
    by (simp add: lex_simps)
  have "tokenize 0 (CHR ''1'' # replicate n CHR ''0'' @ ''/1'') =
    (case int_literal (CHR ''1'' # replicate n CHR ''0'') of
       Inl e \<Rightarrow> Inl e
     | Inr k \<Rightarrow> cons_token (TInt k) (tokenize 0 ''/1''))"
    by (rule tokenize_int) (simp_all add: re_digit_def)
  then show ?thesis
    using assms by (simp add: int_literal_one_zeros t cons_token_def)
qed

lemma py_compile_start:
  "re_digit c \<or> c = CHR ''.'' \<or> c = CHR ''-'' \<Longrightarrow>
   py_compile (c # cs) =
     (case tokenize 0 (c # cs) of Inl e \<Rightarrow> Inl e | Inr ts \<Rightarrow> py_parse ts)"
  by (auto simp: py_compile_def re_digit_def is_newline_def)

lemma eval_one_zeros_div_1:
  assumes "342 \<le> n" "n < 4300"
  shows "py_eval (CHR ''1'' # replicate n CHR ''0'' @ ''/1'') = Inl OverflowError"
proof -
  have p: "py_parse [TInt (10 ^ n), TSlash, TInt 1]
    = Inr (BinOp (Constant (PInt (10 ^ n))) Div (Constant (PInt 1)))"
    by (simp add: parse_simps)
  have "re_digit CHR ''1''" by (simp add: re_digit_def)
  then show ?thesis
    using assms
    by (simp add: py_eval_def py_compile_start tokenize_one_zeros_div_1 p int_true_divide_overflow)
qed

lemma type_zero:
  assumes "\<not> new_expression s" "display_text s \<noteq> ''0''"
  shows "process_input s ''0'' = Inr (s\<lparr>display_text := display_text s @ ''0''\<rparr>)"
  using assms by (simp add: input_simps)

lemma type_zeros:
  "\<not> new_expression s \<Longrightarrow> display_text s \<noteq> [] \<Longrightarrow> display_text s \<noteq> ''0'' \<Longrightarrow>
   process_inputs s (replicate n ''0'' @ vs) =
   process_inputs (s\<lparr>display_text := display_text s @ replicate n CHR ''0''\<rparr>) vs"
proof (induction n arbitrary: s)
  case 0
  then show ?case by simp
next
  case (Suc n)
  let ?s1 = "s\<lparr>display_text := display_text s @ ''0''\<rparr>"
  have step: "process_input s ''0'' = Inr ?s1"
    using Suc.prems by (simp add: type_zero)
  have a: "\<not> new_expression ?s1" using Suc.prems by simp
  have b: "display_text ?s1 \<noteq> []" by simp
  have c: "display_text ?s1 \<noteq> ''0''" using Suc.prems by simp
  have "process_inputs s (replicate (Suc n) ''0'' @ vs) = process_inputs ?s1 (replicate n ''0'' @ vs)"
    using step by simp
  also have "\<dots> = process_inputs (?s1\<lparr>display_text := display_text ?s1 @ replicate n CHR ''0''\<rparr>) vs"
    using a b c by (rule Suc.IH)
  also have "?s1\<lparr>display_text := display_text ?s1 @ replicate n CHR ''0''\<rparr>
    = s\<lparr>display_text := display_text s @ replicate (Suc n) CHR ''0''\<rparr>"
    by (simp add: replicate_app_Cons_same)
  finally show ?case .
qed

lemma adjacent_operators_Cons:
  "\<not> is_operator c \<Longrightarrow> adjacent_operators (c # xs) = adjacent_operators xs"
  by (cases xs) simp_all

lemma safe_one_zeros_div_1: "is_safe_expression (CHR ''1'' # replicate n CHR ''0'' @ ''/1'')"
proof -
  have a: "\<not> adjacent_operators (replicate n CHR ''0'' @ ''/1'')"
    by (induction n) (simp_all add: adjacent_operators_Cons is_operator_def)
  have a': "\<not> adjacent_operators (CHR ''1'' # replicate n CHR ''0'' @ ''/1'')"
    using a by (simp add: adjacent_operators_Cons is_operator_def)
  have b: "\<not> double_dot (replicate n CHR ''0'' @ ''/1'')"
    by (induction n) simp_all
  have c: "count_list (replicate n CHR ''0'' @ ''/1'') CHR ''('' = 0"
    "count_list (replicate n CHR ''0'' @ ''/1'') CHR '')'' = 0"
    by (induction n) simp_all
  show ?thesis
    using a' b c by (simp add: is_safe_expression_def safe_pattern_def safe_char_def re_digit_def)
qed

lemma strip_one_zeros_div_1:
  "strip_trailing_operators (CHR ''1'' # replicate n CHR ''0'' @ ''/1'')
     = CHR ''1'' # replicate n CHR ''0'' @ ''/1''"
  by (subst strip_trailing_operators.simps) (simp add: is_operator_def)

subsection \<open>Digits of an int\<close>

lemma digit_char_digit: "d < 10 \<Longrightarrow> re_digit (digit_char d)"
proof -
  assume "d < 10"
  then have "d \<in> {0, 1, 2, 3, 4, 5, 6, 7, 8, 9}" by auto
  then show ?thesis by (auto simp: digit_char_def re_digit_def)
qed

lemma str_nat_digits: "c \<in> set (str_nat n) \<Longrightarrow> re_digit c"
proof (induction n arbitrary: c rule: str_nat.induct)
  case (1 n)
  show ?case
  proof (cases "n < 10")
    case True
    then show ?thesis using 1(2) by (simp add: str_nat.simps digit_char_digit)
  next
    case False
    then have "c \<in> set (str_nat (n div 10)) \<or> c = digit_char (n mod 10)"
      using 1(2) by (subst (asm) str_nat.simps) auto
    then show ?thesis using 1(1) False by (auto simp: digit_char_digit)
  qed
qed

lemma str_nat_not_empty: "str_nat n \<noteq> []"
  by (subst str_nat.simps) simp



subsection \<open>Exceptions of arithmetic expressions\<close>

lemma to_float_exn: "to_float v = Inl e \<Longrightarrow> v \<noteq> PTuple \<Longrightarrow> e = OverflowError"
  by (cases v) (auto simp: to_float_def int_to_float_def split: pyfloat.splits)

lemma float_arith_result:
  "a \<noteq> PTuple \<Longrightarrow> b \<noteq> PTuple \<Longrightarrow>
   (\<exists>x. float_arith f a b = Inr (PFloat x)) \<or> float_arith f a b = Inl OverflowError"
  by (auto simp: float_arith_def split: sum.splits dest: to_float_exn)

lemma binary_op_arith:
  assumes "a \<noteq> PTuple" "b \<noteq> PTuple"
  shows "(\<exists>v. binary_op p a b = Inr v \<and> v \<noteq> PTuple) \<or>
    binary_op p a b = Inl ZeroDivisionError \<or> binary_op p a b = Inl OverflowError"
proof (cases p)
  case Add
  then show ?thesis
    using assms float_arith_result [of a b float_add] by (cases a; cases b) auto
next
  case Sub
  then show ?thesis
    using assms float_arith_result [of a b float_sub] by (cases a; cases b) auto
next
  case Mult
  then show ?thesis
    using assms float_arith_result [of a b float_mul] by (cases a; cases b) auto
next
  case Div
  then show ?thesis
    using assms
    by (cases a; cases b)
      (auto simp: int_true_divide_def split: sum.splits pyfloat.splits dest: to_float_exn)
qed

lemma unary_op_arith: "v \<noteq> PTuple \<Longrightarrow> \<exists>w. unary_op u v = Inr w \<and> w \<noteq> PTuple"
  by (cases u; cases v) auto

lemma eval_arithmetic:
  "arithmetic x \<Longrightarrow>
   (\<exists>v. eval_expr x = Inr v \<and> v \<noteq> PTuple) \<or>
   eval_expr x = Inl ZeroDivisionError \<or> eval_expr x = Inl OverflowError"
proof (induction x)
  case (Constant v)
  then show ?case by simp
next
  case (UnaryOp u x)
  then show ?case using unary_op_arith [of _ u] by auto
next
  case (BinOp l b r)
  have l: "(\<exists>v. eval_expr l = Inr v \<and> v \<noteq> PTuple) \<or>
    eval_expr l = Inl ZeroDivisionError \<or> eval_expr l = Inl OverflowError"
    using BinOp by simp
  have r: "(\<exists>v. eval_expr r = Inr v \<and> v \<noteq> PTuple) \<or>
    eval_expr r = Inl ZeroDivisionError \<or> eval_expr r = Inl OverflowError"
    using BinOp by simp
  show ?case
  proof (cases "eval_expr l")
    case (Inl e)
    then show ?thesis using l by auto
  next
    case lv: (Inr v)
    then have v: "v \<noteq> PTuple" using l by auto
    show ?thesis
    proof (cases "eval_expr r")
      case (Inl e)
      then show ?thesis using r lv by auto
    next
      case rv: (Inr w)
      then have w: "w \<noteq> PTuple" using r by auto
      show ?thesis using binary_op_arith [OF v w, of b] lv rv by simp
    qed
  qed
qed simp_all

lemma binary_op_zero_divisor:
  assumes a: "a \<noteq> PTuple" and b: "zero_value b"
  shows "binary_op Div a b = Inl ZeroDivisionError \<or> binary_op Div a b = Inl OverflowError"
proof -
  have z: "to_float (PInt 0) = Inr (Fin False 0 (- 1074))"
    by (simp add: to_float_def int_to_float_def float_round_def)
  have zb: "b = PInt 0 \<or> (\<exists>y. to_float b = Inr y \<and> float_is_zero y \<and> (\<exists>y'. b = PFloat y'))"
    using b by (cases b) (auto simp: to_float_def)
  show ?thesis
  proof (cases a)
    case (PInt m)
    show ?thesis
    proof (cases b)
      case (PInt n)
      then show ?thesis using b \<open>a = PInt m\<close> by (simp add: int_true_divide_def)
    next
      case (PFloat y)
      then have y: "float_is_zero y" using b by simp
      show ?thesis
      proof (cases "to_float a")
        case (Inl e)
        then have "e = OverflowError" using a by (rule to_float_exn)
        then show ?thesis using Inl PFloat \<open>a = PInt m\<close> by simp
      next
        case (Inr x)
        then show ?thesis using PFloat y \<open>a = PInt m\<close> by (simp add: to_float_def)
      qed
    next
      case PTuple
      then show ?thesis using b by simp
    qed
  next
    case (PFloat x)
    show ?thesis
    proof (cases b)
      case (PInt n)
      then have "n = 0" using b by simp
      then show ?thesis using PInt \<open>a = PFloat x\<close> z by (simp add: to_float_def)
    next
      case (PFloat y)
      then have "float_is_zero y" using b by simp
      then show ?thesis using PFloat \<open>a = PFloat x\<close> by (simp add: to_float_def)
    next
      case PTuple
      then show ?thesis using b by simp
    qed
  next
    case PTuple
    then show ?thesis using a by simp
  qed
qed

lemma eval_divides_by_zero:
  "arithmetic x \<Longrightarrow> divides_by_zero x \<Longrightarrow>
   eval_expr x = Inl ZeroDivisionError \<or> eval_expr x = Inl OverflowError"
proof (induction x)
  case (UnaryOp u x)
  then show ?case by auto
next
  case (BinOp l b r)
  have al: "arithmetic l" and ar: "arithmetic r" using BinOp.prems by simp_all
  note el = eval_arithmetic [OF al] and er = eval_arithmetic [OF ar]
  consider (l) "divides_by_zero l" | (r) "divides_by_zero r"
    | (d) w where "b = Div" "eval_expr r = Inr w" "zero_value w"
    using BinOp.prems(2) by (auto split: sum.splits)
  then show ?case
  proof cases
    case l
    then show ?thesis using BinOp.IH(1) al by auto
  next
    case r
    then have "eval_expr r = Inl ZeroDivisionError \<or> eval_expr r = Inl OverflowError"
      using BinOp.IH(2) ar by simp
    then show ?thesis using el by auto
  next
    case d
    show ?thesis
    proof (cases "eval_expr l")
      case (Inl e)
      then show ?thesis using el by auto
    next
      case (Inr v)
      then have "v \<noteq> PTuple" using el by auto
      then show ?thesis
        using binary_op_zero_divisor [of v w] d Inr by simp
    qed
  qed
qed simp_all

subsection \<open>Operators in formatted numbers\<close>

lemma adjacent_operators_append:
  "adjacent_operators (xs @ ys) =
     (adjacent_operators xs \<or> adjacent_operators ys \<or>
      (xs \<noteq> [] \<and> ys \<noteq> [] \<and> is_operator (last xs) \<and> is_operator (hd ys)))"
proof (induction xs)
  case Nil
  then show ?case by simp
next
  case (Cons c cs)
  show ?case
  proof (cases cs)
    case Nil
    then show ?thesis by (cases ys) auto
  next
    case (Cons d ds)
    then show ?thesis using Cons.IH by auto
  qed
qed

lemma no_operator_no_adjacent:
  "\<forall>c \<in> set xs. \<not> is_operator c \<Longrightarrow> \<not> adjacent_operators xs"
  by (induction xs rule: adjacent_operators.induct) auto

lemma adjacent_operators_butlast: "\<not> adjacent_operators xs \<Longrightarrow> \<not> adjacent_operators (butlast xs)"
proof (cases "xs = []")
  case True
  then show ?thesis by simp
next
  case False
  assume "\<not> adjacent_operators xs"
  then have "\<not> adjacent_operators (butlast xs @ [last xs])" using False by simp
  then show ?thesis unfolding adjacent_operators_append by blast
qed

lemma re_digit_not_operator: "re_digit c \<Longrightarrow> \<not> is_operator c"
  by (auto simp: re_digit_def is_operator_def)

lemma digit_string_str_nat: "digit_string (str_nat n)"
  by (simp add: digit_string_def str_nat_not_empty str_nat_digits)

lemma digit_string_one: "digit_string ''1''"
  by (simp add: digit_string_def re_digit_def)

lemma shortest_digits_chars: "digit_string (fst (shortest_digits a d m e p k))"
proof (induction "17 - k" arbitrary: k rule: less_induct)
  case less
  have IH: "\<not> 17 \<le> k \<Longrightarrow> digit_string (fst (shortest_digits a d m e p (Suc k)))"
    using less.hyps [of "Suc k"] by simp
  show ?case
    by (subst shortest_digits.simps)
      (simp add: Let_def digit_string_str_nat digit_string_one IH)
qed

lemma re_digit_zero: "re_digit CHR ''0''"
  by (simp add: re_digit_def)

lemma exponent_str_form:
  "\<exists>c ds. exponent_str x = c # ds \<and> digit_string ds"
  by (auto simp: exponent_str_def digit_string_def str_nat_digits str_nat_not_empty re_digit_zero)

lemma adjacent_operators_Cons2:
  "xs \<noteq> [] \<Longrightarrow> \<not> is_operator (hd xs) \<Longrightarrow> adjacent_operators (c # xs) = adjacent_operators xs"
  by (cases xs) simp_all

lemma point_not_operator: "\<not> is_operator CHR ''.''"
  by (simp add: is_operator_def)

lemma point_digits:
  assumes "\<forall>c \<in> set xs. re_digit c \<or> c = CHR ''.''" "xs \<noteq> []"
  shows "\<not> adjacent_operators xs \<and> xs \<noteq> [] \<and> \<not> is_operator (hd xs)"
proof -
  have no: "\<forall>c \<in> set xs. \<not> is_operator c"
  proof
    fix c
    assume "c \<in> set xs"
    then have "re_digit c \<or> c = CHR ''.''" using assms(1) by blast
    then show "\<not> is_operator c"
      using re_digit_not_operator point_not_operator by blast
  qed
  then have "\<not> adjacent_operators xs" by (rule no_operator_no_adjacent)
  moreover have "\<not> is_operator (hd xs)" using no assms(2) by simp
  ultimately show ?thesis using assms(2) by simp
qed

lemma format_digits_no_adjacent:
  assumes "digit_string ds"
  shows "\<not> adjacent_operators (format_digits ds p) \<and> format_digits ds p \<noteq> [] \<and>
    \<not> is_operator (hd (format_digits ds p))"
proof -
  have ne: "ds \<noteq> []" and dg: "\<And>c. c \<in> set ds \<Longrightarrow> re_digit c"
    using assms by (auto simp: digit_string_def)
  have hd: "re_digit (hd ds)" using ne dg by simp
  have tl: "\<And>c. c \<in> set (tl ds) \<Longrightarrow> re_digit c"
    using ne dg by (cases ds) auto
  consider (exp) "p \<le> - 4 \<or> 16 < p" | (small) "\<not> (p \<le> - 4 \<or> 16 < p)" "p \<le> 0"
    | (mid) "\<not> (p \<le> - 4 \<or> 16 < p)" "\<not> p \<le> 0" "nat p < length ds"
    | (int) "\<not> (p \<le> - 4 \<or> 16 < p)" "\<not> p \<le> 0" "\<not> nat p < length ds"
    by blast
  then show ?thesis
  proof cases
    case exp
    obtain c es where ex: "exponent_str (p - 1) = c # es" and es: "digit_string es"
      using exponent_str_form by blast
    have es': "es \<noteq> []" "\<not> is_operator (hd es)" "\<not> adjacent_operators es"
      using es by (auto simp: digit_string_def re_digit_not_operator intro!: no_operator_no_adjacent)
    define mant where "mant = hd ds # (if 1 < length ds then CHR ''.'' # tl ds else []) @ ''e''"
    have o: "\<not> is_operator (hd ds)" "\<forall>c \<in> set (tl ds). \<not> is_operator c"
      "\<not> is_operator CHR ''.''" "\<not> is_operator CHR ''e''"
      using hd tl by (auto simp: re_digit_not_operator) (simp_all add: is_operator_def)
    have mc: "\<forall>c \<in> set mant. \<not> is_operator c"
      using o by (auto simp: mant_def)
    have m1: "\<not> adjacent_operators mant" using mc by (rule no_operator_no_adjacent)
    have m2: "mant \<noteq> []" "\<not> is_operator (last mant)" "hd mant = hd ds"
      by (simp_all add: mant_def is_operator_def)
    have f: "format_digits ds p = mant @ c # es"
      using exp ex by (simp add: format_digits_def mant_def)
    have "\<not> adjacent_operators (mant @ c # es)"
      unfolding adjacent_operators_append
      using m1 m2 es' by (simp add: adjacent_operators_Cons2)
    then show ?thesis
      unfolding f using m2 hd by (simp add: re_digit_not_operator)
  next
    case small
    then have f: "format_digits ds p = ''0.'' @ replicate (nat (- p)) CHR ''0'' @ ds"
      by (simp add: format_digits_def)
    show ?thesis unfolding f
      by (rule point_digits) (use dg in \<open>auto simp: re_digit_zero\<close>)
  next
    case mid
    then have f: "format_digits ds p = take (nat p) ds @ ''.'' @ drop (nat p) ds"
      by (simp add: format_digits_def)
    show ?thesis unfolding f
      by (rule point_digits) (use dg in \<open>auto dest: in_set_takeD in_set_dropD\<close>)
  next
    case int
    then have f: "format_digits ds p = ds @ replicate (nat p - length ds) CHR ''0'' @ ''.0''"
      by (simp add: format_digits_def)
    show ?thesis unfolding f
      by (rule point_digits) (use dg in \<open>auto simp: re_digit_zero\<close>)
  qed
qed

lemma float_repr_no_adjacent: "\<not> adjacent_operators (float_repr x)"
proof (cases x)
  case (Fin s m e)
  define body where "body =
     (if m = 0 then ''0.0''
      else
        let a = (if 0 \<le> e then m * 2 ^ nat e else m);
            d = (if 0 \<le> e then 1 else 2 ^ nat (- e));
            (ds, p) = shortest_digits a d m e (decimal_point a d) 1
        in format_digits ds p)"
  have b: "\<not> adjacent_operators body \<and> body \<noteq> [] \<and> \<not> is_operator (hd body)"
  proof (cases "m = 0")
    case True
    then show ?thesis by (simp add: body_def is_operator_def)
  next
    case False
    define a where "a = (if 0 \<le> e then m * 2 ^ nat e else m)"
    define d where "d = (if 0 \<le> e then 1 else (2::nat) ^ nat (- e))"
    obtain ds p where sd: "shortest_digits a d m e (decimal_point a d) 1 = (ds, p)"
      by (cases "shortest_digits a d m e (decimal_point a d) 1")
    have "digit_string ds" using shortest_digits_chars [of a d m e "decimal_point a d" 1] sd by simp
    then have "\<not> adjacent_operators (format_digits ds p) \<and> format_digits ds p \<noteq> [] \<and>
      \<not> is_operator (hd (format_digits ds p))"
      by (rule format_digits_no_adjacent)
    moreover have "body = format_digits ds p"
      using False sd by (simp add: body_def a_def [symmetric] d_def [symmetric] Let_def)
    ultimately show ?thesis by simp
  qed
  have "float_repr x = (if s then ''-'' else []) @ body"
    using Fin by (simp add: body_def)
  then show ?thesis
    using b by (simp add: adjacent_operators_Cons2)
next
  case (FInf s)
  then show ?thesis by (simp add: is_operator_def)
next
  case FNaN
  then show ?thesis by (simp add: is_operator_def)
qed

lemma py_str_int_no_adjacent: "py_str_int n = Inr out \<Longrightarrow> \<not> adjacent_operators out"
proof -
  assume a: "py_str_int n = Inr out"
  have d: "digit_string (str_nat (nat \<bar>n\<bar>))" by (rule digit_string_str_nat)
  then have "\<not> adjacent_operators (str_nat (nat \<bar>n\<bar>))" "str_nat (nat \<bar>n\<bar>) \<noteq> []"
    "\<not> is_operator (hd (str_nat (nat \<bar>n\<bar>)))"
    by (auto simp: digit_string_def re_digit_not_operator intro!: no_operator_no_adjacent)
  then show ?thesis
    using a by (auto simp: py_str_int_def Let_def adjacent_operators_Cons2 split: if_splits)
qed

subsection \<open>Tokens of an expression without parentheses\<close>










subsection \<open>The parser on these tokens\<close>







subsection \<open>The validation of these texts\<close>














section \<open>Evaluation of concrete inputs\<close>

lemma eval_3_plus_5: "py_eval ''3+5'' = Inr (PInt 8)"
  by (simp add: py_eval_def py_compile_def lex_simps parse_simps)

lemma eval_1_div_0: "py_eval ''1/0'' = Inl ZeroDivisionError"
  by (simp add: py_eval_def py_compile_def lex_simps parse_simps int_true_divide_def)

lemma str_int_8: "py_str_int 8 = Inr ''8''"
  by (simp add: py_str_int_def str_nat.simps digit_char_def)

lemma safe_examples:
  "is_safe_expression ''3+5''" "is_safe_expression ''1/0''"
  "\<not> is_safe_expression ''Error: Div/0''"
  by (simp_all add: safe_simps)

lemma unsafe_examples:
  "\<not> is_safe_expression ''3..5''" "\<not> is_safe_expression ''5**3''"
  "\<not> is_safe_expression ''(2+3''"
  by (simp_all add: is_safe_expression_def is_operator_def re_digit_def)

lemma strip_examples:
  "strip_trailing_operators ''3+5'' = ''3+5''"
  "strip_trailing_operators ''1/0'' = ''1/0''"
  "strip_trailing_operators ''Error: Div/0+'' = ''Error: Div/0''"
  "strip_trailing_operators ''3..5'' = ''3..5''"
  "strip_trailing_operators ''5**3'' = ''5**3''"
  "strip_trailing_operators ''(2+3'' = ''(2+3''"
  by (simp_all add: strip_trailing_operators.simps is_operator_def)

lemma evaluate_3_plus_5:
  "evaluate_expression \<lparr>display_text = ''3+5'', last_result = r, new_expression = False\<rparr>
     = Inr \<lparr>display_text = ''8'', last_result = PInt 8, new_expression = True\<rparr>"
  by (simp add: evaluate_expression_def try_body_def strip_examples safe_examples
      eval_3_plus_5 str_int_8)

lemma run_3_plus_5:
  "process_inputs initial_state [''3'', ''+'', ''5'', ''='']
     = Inr \<lparr>display_text = ''8'', last_result = PInt 8, new_expression = True\<rparr>"
  by (simp add: initial_state_def input_simps evaluate_3_plus_5)

section \<open>The buffer in fresh mode\<close>

lemma not_operator_values:
  "\<not> py_in ''C'' ''+-*/''" "\<not> py_in ''DEL'' ''+-*/''" "\<not> py_in ''='' ''+-*/''"
  by simp_all

lemma not_digit_values: "\<not> isdigit ''C''" "\<not> isdigit ''DEL''" "\<not> isdigit ''=''"
  by (simp_all add: isdigit_def re_digit_def)

text \<open>
  Claim C10. In a state whose \<open>new_expression\<close> flag is set, the inputs \<open>C\<close>, \<open>DEL\<close> and \<open>=\<close>
  leave the whole state as it is: the first branch of \<open>process_input\<close> returns before the
  branches of these inputs are reached.
\<close>

theorem fresh_mode_ignores_clear_delete_equals:
  "new_expression s \<Longrightarrow> v \<in> {''C'', ''DEL'', ''=''} \<Longrightarrow> process_input s v = Inr s"
  unfolding process_input_def Let_def
  using not_operator_values not_digit_values by auto

theorem fresh_mode_ignores_witness:
  "new_expression initial_state \<and> ''DEL'' \<in> {''C'', ''DEL'', ''=''} \<and>
   process_input initial_state ''DEL'' = Inr initial_state"
proof -
  have h: "new_expression initial_state" by (simp add: initial_state_def)
  have m: "''DEL'' \<in> {''C'', ''DEL'', ''=''}" by simp
  show ?thesis
    using h m fresh_mode_ignores_clear_delete_equals [OF h m] by simp
qed

section \<open>Clear\<close>




section \<open>Delete\<close>

lemma delete_step:
  "\<not> new_expression s \<Longrightarrow>
   process_input s ''DEL'' =
     Inr (s\<lparr>display_text :=
            (if 1 < length (display_text s) then butlast (display_text s) else ''0'')\<rparr>)"
  by (simp add: process_input_def)

text \<open>
  Claim C5, as stated, fails: the state after \<open>3 + 5 =\<close> is reachable, its text is \<open>8\<close>, and
  \<open>DEL\<close> maps it to itself, so no number of deletions brings the text to \<open>0\<close>.
\<close>

theorem delete_after_result_counterexample:
  "process_inputs initial_state [''3'', ''+'', ''5'', ''='']
     = Inr \<lparr>display_text = ''8'', last_result = PInt 8, new_expression = True\<rparr> \<and>
   process_input \<lparr>display_text = ''8'', last_result = PInt 8, new_expression = True\<rparr> ''DEL''
     = Inr \<lparr>display_text = ''8'', last_result = PInt 8, new_expression = True\<rparr> \<and>
   display_text \<lparr>display_text = ''8'', last_result = PInt 8, new_expression = True\<rparr> \<noteq> ''0''"
proof (intro conjI)
  show "process_inputs initial_state [''3'', ''+'', ''5'', ''='']
     = Inr \<lparr>display_text = ''8'', last_result = PInt 8, new_expression = True\<rparr>"
    by (rule run_3_plus_5)
  show "process_input \<lparr>display_text = ''8'', last_result = PInt 8, new_expression = True\<rparr> ''DEL''
     = Inr \<lparr>display_text = ''8'', last_result = PInt 8, new_expression = True\<rparr>"
    by (simp add: process_input_def not_digit_values)
  show "display_text \<lparr>display_text = ''8'', last_result = PInt 8, new_expression = True\<rparr> \<noteq> ''0''"
    by simp
qed

text \<open>
  Claim C5, amended. From every state whose \<open>new_expression\<close> flag is not set, \<open>n\<close>
  deletions in a row raise nothing and leave the flag unset; after at least one deletion
  the text is not empty, and once \<open>n\<close> has reached the length of the text the text is \<open>0\<close>
  and stays \<open>0\<close>.
\<close>

theorem delete_repeated_reaches_zero:
  "\<not> new_expression s \<Longrightarrow>
   \<exists>s'. process_inputs s (replicate n ''DEL'') = Inr s' \<and> \<not> new_expression s' \<and>
     (0 < n \<longrightarrow> display_text s' \<noteq> [] \<and>
        (length (display_text s) \<le> n \<longrightarrow> display_text s' = ''0''))"
proof (induction n arbitrary: s)
  case 0
  then show ?case by simp
next
  case (Suc n)
  define t where
    "t = (if 1 < length (display_text s) then butlast (display_text s) else ''0'')"
  define s1 where "s1 = s\<lparr>display_text := t\<rparr>"
  have step: "process_input s ''DEL'' = Inr s1"
    using Suc.prems by (simp add: delete_step s1_def t_def)
  have nf: "\<not> new_expression s1"
    using Suc.prems by (simp add: s1_def)
  have t1: "display_text s1 = t"
    by (simp add: s1_def)
  have ne: "t \<noteq> []"
    by (cases "display_text s" rule: rev_cases) (auto simp: t_def)
  have len: "length (display_text s) \<le> Suc n \<Longrightarrow> length t \<le> n \<or> t = ''0''"
    by (auto simp: t_def)
  have z: "length (display_text s) \<le> 1 \<Longrightarrow> t = ''0''"
    by (auto simp: t_def)
  from Suc.IH [OF nf] obtain s' where
    run: "process_inputs s1 (replicate n ''DEL'') = Inr s'" and
    fr: "\<not> new_expression s'" and
    tx: "0 < n \<longrightarrow> display_text s' \<noteq> [] \<and> (length t \<le> n \<longrightarrow> display_text s' = ''0'')"
    unfolding t1 by blast
  have all: "process_inputs s (replicate (Suc n) ''DEL'') = Inr s'"
    using step run by simp
  have res: "display_text s' \<noteq> [] \<and>
    (length (display_text s) \<le> Suc n \<longrightarrow> display_text s' = ''0'')"
  proof (cases n)
    case 0
    then have "s' = s1" using run by simp
    then show ?thesis using ne z 0 t1 by auto
  next
    case (Suc k)
    then have p: "display_text s' \<noteq> []"
      and q: "length t \<le> n \<longrightarrow> display_text s' = ''0''"
      using tx by simp_all
    have "length (display_text s) \<le> Suc n \<longrightarrow> display_text s' = ''0''"
    proof
      assume "length (display_text s) \<le> Suc n"
      then have "length t \<le> n \<or> t = ''0''" by (rule len)
      then have "length t \<le> n" using Suc by auto
      then show "display_text s' = ''0''" using q by simp
    qed
    then show ?thesis using p by simp
  qed
  show ?case using all fr res by blast
qed

theorem delete_repeated_witness:
  "\<not> new_expression \<lparr>display_text = ''12+'', last_result = PInt 0, new_expression = False\<rparr> \<and>
   (\<exists>s'. process_inputs
       \<lparr>display_text = ''12+'', last_result = PInt 0, new_expression = False\<rparr>
       (replicate 3 ''DEL'') = Inr s' \<and> display_text s' = ''0'')"
  using delete_repeated_reaches_zero
    [of "\<lparr>display_text = ''12+'', last_result = PInt 0, new_expression = False\<rparr>" 3]
  by auto

section \<open>Syntax errors found by the validation\<close>

text \<open>
  Claim C9. The texts \<open>3..5\<close>, \<open>5**3\<close> and \<open>(2+3\<close> are rejected by \<open>is_safe_expression\<close>
  (two points in one number, two operators side by side, unbalanced parentheses), and
  \<open>evaluate_expression\<close> answers each of them with the display \<open>Error\<close>.
\<close>

theorem invalid_syntax_examples:
  "\<not> is_safe_expression ''3..5'' \<and> \<not> is_safe_expression ''5**3'' \<and>
   \<not> is_safe_expression ''(2+3'' \<and>
   evaluate_expression (s\<lparr>display_text := ''3..5''\<rparr>) = Inr (s\<lparr>display_text := ''Error''\<rparr>) \<and>
   evaluate_expression (s\<lparr>display_text := ''5**3''\<rparr>) = Inr (s\<lparr>display_text := ''Error''\<rparr>) \<and>
   evaluate_expression (s\<lparr>display_text := ''(2+3''\<rparr>) = Inr (s\<lparr>display_text := ''Error''\<rparr>)"
  by (simp add: evaluate_expression_def try_body_def strip_examples unsafe_examples)

theorem invalid_syntax_witness:
  "evaluate_expression \<lparr>display_text = ''(2+3'', last_result = PInt 0, new_expression = False\<rparr>
     = Inr \<lparr>display_text = ''Error'', last_result = PInt 0, new_expression = False\<rparr>"
  using invalid_syntax_examples
    [of "\<lparr>display_text = ''0'', last_result = PInt 0, new_expression = False\<rparr>"]
  by simp

section \<open>Errors of the evaluation and the flag\<close>

text \<open>
  Claim C4 at the inputs \<open>1 / 0 = + =\<close>. The first \<open>=\<close> displays \<open>Error: Div/0\<close> and sets the
  flag; the operator appends to that text and clears the flag; the second \<open>=\<close> fails in
  \<open>is_safe_expression\<close>, displays \<open>Error\<close> and returns without setting the flag, so that
  the digit \<open>7\<close> is appended to the error text.
\<close>

theorem rejected_text_keeps_flag:
  "process_inputs initial_state [''1'', ''/'', ''0'', ''='', ''+'', ''='']
     = Inr \<lparr>display_text = ''Error'', last_result = PInt 0, new_expression = False\<rparr> \<and>
   process_inputs initial_state [''1'', ''/'', ''0'', ''='', ''+'', ''='', ''7'']
     = Inr \<lparr>display_text = ''Error7'', last_result = PInt 0, new_expression = False\<rparr>"
  by (simp add: initial_state_def input_simps evaluate_expression_def try_body_def
      strip_examples safe_examples eval_1_div_0)

section \<open>An exception that escapes\<close>

text \<open>
  Claim C2 at the inputs \<open>1\<close>, 400 times \<open>0\<close>, \<open>/\<close>, \<open>1\<close>, \<open>=\<close>. The text passes
  \<open>is_safe_expression\<close>; the division of the two ints raises \<open>OverflowError\<close> (the
  quotient is too large for a float), which no \<open>except\<close> clause of
  \<open>evaluate_expression\<close> names, so it leaves \<open>process_input\<close>.
\<close>

theorem overflow_escapes_equals:
  "process_inputs initial_state (''1'' # replicate 400 ''0'' @ [''/'', ''1'', ''='']) = Inl OverflowError"
proof -
  define t where "t = CHR ''1'' # replicate 400 CHR ''0''"
  define s1 where "s1 = \<lparr>display_text = ''1'', last_result = PInt 0, new_expression = False\<rparr>"
  define s2 where "s2 = \<lparr>display_text = t, last_result = PInt 0, new_expression = False\<rparr>"
  define s3 where "s3 = \<lparr>display_text = t @ ''/'', last_result = PInt 0, new_expression = False\<rparr>"
  define s4 where "s4 = \<lparr>display_text = t @ ''/1'', last_result = PInt 0, new_expression = False\<rparr>"
  have 1: "process_input initial_state ''1'' = Inr s1"
    by (simp add: initial_state_def input_simps s1_def)
  have "process_inputs s1 (replicate 400 ''0'' @ [''/'', ''1'', ''=''])
    = process_inputs (s1\<lparr>display_text := display_text s1 @ replicate 400 CHR ''0''\<rparr>) [''/'', ''1'', ''='']"
    by (rule type_zeros) (simp_all add: s1_def)
  moreover have "s1\<lparr>display_text := display_text s1 @ replicate 400 CHR ''0''\<rparr> = s2"
    by (simp add: s1_def s2_def t_def)
  ultimately have 2: "process_inputs s1 (replicate 400 ''0'' @ [''/'', ''1'', ''='']) =
    process_inputs s2 [''/'', ''1'', ''='']"
    by simp
  have tl: "last t = CHR ''0''" "t \<noteq> []" "t \<noteq> ''0''" "t @ ''/'' \<noteq> ''0''"
    by (simp_all add: t_def)
  have 3: "process_input s2 ''/'' = Inr s3"
    using tl by (simp add: input_simps s2_def s3_def)
  have 4: "process_input s3 ''1'' = Inr s4"
    using tl by (simp add: input_simps s3_def s4_def)
  have 5: "process_input s4 ''='' = Inl OverflowError"
    using safe_one_zeros_div_1 [of 400] strip_one_zeros_div_1 [of 400] eval_one_zeros_div_1 [of 400]
    by (simp add: process_input_def evaluate_expression_def try_body_def s4_def t_def)
  have "process_inputs initial_state (''1'' # replicate 400 ''0'' @ [''/'', ''1'', ''=''])
    = process_inputs s1 (replicate 400 ''0'' @ [''/'', ''1'', ''=''])"
    using 1 by simp
  also have "\<dots> = process_inputs s2 [''/'', ''1'', ''='']" by (rule 2)
  also have "\<dots> = Inl OverflowError"
    by (simp only: process_inputs.simps 3 4 5 sum.case)
  finally show ?thesis .
qed

section \<open>The format of an integral result\<close>

lemma is_safe_not_empty: "is_safe_expression e \<Longrightarrow> e \<noteq> []"
  by (auto simp: is_safe_expression_def safe_pattern_def split: if_splits)









section \<open>Division by zero\<close>

lemma evaluate_zero_division:
  assumes "strip_trailing_operators (display_text s) = e" "is_safe_expression e"
    "py_eval e = Inl ZeroDivisionError"
  shows "evaluate_expression s
    = Inr (s\<lparr>display_text := ''Error: Div/0'', new_expression := True\<rparr>)"
  using assms is_safe_not_empty [of e]
  by (simp add: evaluate_expression_def try_body_def)

lemma eval_10_div_0: "py_eval ''10/0'' = Inl ZeroDivisionError"
  by (simp add: py_eval_def py_compile_def lex_simps parse_simps int_true_divide_def)

lemma safe_10_div_0: "is_safe_expression ''10/0''" "is_safe_expression ''05/0''"
  by (simp_all add: safe_simps)

lemma strip_10_div_0: "strip_trailing_operators ''10/0'' = ''10/0''"
  "strip_trailing_operators ''05/0'' = ''05/0''"
  by (simp_all add: strip_trailing_operators.simps is_operator_def)

lemma eval_05: "py_eval ''05/0'' = Inl SyntaxError"
  by (simp add: py_eval_def py_compile_def lex_simps parse_simps)

lemma int_to_float_overflow: "342 \<le> n \<Longrightarrow> int_to_float (10 ^ n) = Inl OverflowError"
proof -
  assume n: "342 \<le> n"
  have "(2::nat) ^ 1024 \<le> 2 ^ (3 * n)" using n by (intro power_increasing) simp_all
  also have "\<dots> = 8 ^ n" by (simp add: power_mult)
  also have "\<dots> \<le> 10 ^ n" by (intro power_mono) simp_all
  finally have "1 * 2 ^ 1024 \<le> (10::nat) ^ n" by simp
  then have "float_round False (10 ^ n) 1 = FInf False"
    by (intro float_round_overflow) simp_all
  then show ?thesis by (simp add: int_to_float_def nat_power_eq)
qed

lemma tokenize_one_zeros_div_float:
  assumes "n < 4300"
  shows "tokenize 0 (CHR ''1'' # replicate n CHR ''0'' @ ''/0.0'')
    = Inr [TInt (10 ^ n), TSlash, TFloat (Fin False 0 (- 1074))]"
proof -
  have t: "tokenize 0 ''/0.0'' = Inr [TSlash, TFloat (Fin False 0 (- 1074))]"
    by (simp add: lex_simps float_round_def)
  have "tokenize 0 (CHR ''1'' # replicate n CHR ''0'' @ ''/0.0'') =
    (case int_literal (CHR ''1'' # replicate n CHR ''0'') of
       Inl e \<Rightarrow> Inl e
     | Inr k \<Rightarrow> cons_token (TInt k) (tokenize 0 ''/0.0''))"
    by (rule tokenize_int) (simp_all add: re_digit_def)
  then show ?thesis
    using assms by (simp add: int_literal_one_zeros t cons_token_def)
qed

lemma eval_one_zeros_div_float:
  assumes "342 \<le> n" "n < 4300"
  shows "py_eval (CHR ''1'' # replicate n CHR ''0'' @ ''/0.0'') = Inl OverflowError"
proof -
  have p: "py_parse [TInt (10 ^ n), TSlash, TFloat (Fin False 0 (- 1074))]
    = Inr (BinOp (Constant (PInt (10 ^ n))) Div (Constant (PFloat (Fin False 0 (- 1074)))))"
    by (simp add: parse_simps)
  have "re_digit CHR ''1''" by (simp add: re_digit_def)
  then show ?thesis
    using assms
    by (simp add: py_eval_def py_compile_start tokenize_one_zeros_div_float p
        to_float_def int_to_float_overflow)
qed

lemma safe_one_zeros_div_float: "is_safe_expression (CHR ''1'' # replicate n CHR ''0'' @ ''/0.0'')"
proof -
  have a: "\<not> adjacent_operators (replicate n CHR ''0'' @ ''/0.0'')"
    by (induction n) (simp_all add: adjacent_operators_Cons is_operator_def)
  have a': "\<not> adjacent_operators (CHR ''1'' # replicate n CHR ''0'' @ ''/0.0'')"
    using a by (simp add: adjacent_operators_Cons is_operator_def)
  have b: "\<not> double_dot (replicate n CHR ''0'' @ ''/0.0'')"
    by (induction n) (simp_all add: re_digit_def)
  have c: "count_list (replicate n CHR ''0'' @ ''/0.0'') CHR ''('' = 0"
    "count_list (replicate n CHR ''0'' @ ''/0.0'') CHR '')'' = 0"
    by (induction n) simp_all
  show ?thesis
    using a' b c by (simp add: is_safe_expression_def safe_pattern_def safe_char_def re_digit_def)
qed

lemma strip_one_zeros_div_float:
  "strip_trailing_operators (CHR ''1'' # replicate n CHR ''0'' @ ''/0.0'')
     = CHR ''1'' # replicate n CHR ''0'' @ ''/0.0''"
  by (subst strip_trailing_operators.simps) (simp add: is_operator_def)

text \<open>
  Claim C7, as stated, fails. The text \<open>05/0\<close> is an expression of the grammar of the
  specification and its divisor is zero, but Python rejects the literal \<open>05\<close>, and the
  display is the generic \<open>Error\<close>. In the text of \<open>1\<close>, 400 zeros and \<open>/0.0\<close> the divisor
  evaluates to the float zero, but the int operand is converted to a float before the
  divisor is tested and the conversion raises \<open>OverflowError\<close>, which is not handled.
\<close>

theorem zero_divisor_counterexample:
  "evaluate_expression \<lparr>display_text = ''05/0'', last_result = PInt 0, new_expression = False\<rparr>
     = Inr \<lparr>display_text = ''Error'', last_result = PInt 0, new_expression = True\<rparr> \<and>
   evaluate_expression
     \<lparr>display_text = CHR ''1'' # replicate 400 CHR ''0'' @ ''/0.0'', last_result = PInt 0,
       new_expression = False\<rparr>
     = Inl OverflowError"
proof (intro conjI)
  show "evaluate_expression \<lparr>display_text = ''05/0'', last_result = PInt 0, new_expression = False\<rparr>
     = Inr \<lparr>display_text = ''Error'', last_result = PInt 0, new_expression = True\<rparr>"
    by (simp add: evaluate_expression_def try_body_def strip_10_div_0 safe_10_div_0 eval_05)
  show "evaluate_expression
     \<lparr>display_text = CHR ''1'' # replicate 400 CHR ''0'' @ ''/0.0'', last_result = PInt 0,
       new_expression = False\<rparr>
     = Inl OverflowError"
    using safe_one_zeros_div_float [of 400] strip_one_zeros_div_float [of 400]
      eval_one_zeros_div_float [of 400]
    by (simp add: evaluate_expression_def try_body_def)
qed

text \<open>
  Claim C7, amended. The text \<open>10/0\<close> is answered with the display \<open>Error: Div/0\<close> and the
  flag set. In general, when the validated text compiles to an arithmetic expression
  (numbers, unary and binary operators, parentheses) in which the divisor of some division
  evaluates to zero, and the evaluation does not overflow, the display is \<open>Error: Div/0\<close>
  and the flag is set.
\<close>

theorem division_by_zero_displayed:
  "evaluate_expression (s\<lparr>display_text := ''10/0''\<rparr>)
     = Inr (s\<lparr>display_text := ''Error: Div/0'', new_expression := True\<rparr>) \<and>
   (strip_trailing_operators (display_text s) = e \<and> is_safe_expression e \<and>
    py_compile e = Inr x \<and> arithmetic x \<and> divides_by_zero x \<and>
    eval_expr x \<noteq> Inl OverflowError \<longrightarrow>
      evaluate_expression s
        = Inr (s\<lparr>display_text := ''Error: Div/0'', new_expression := True\<rparr>))"
proof (intro conjI impI)
  have "evaluate_expression (s\<lparr>display_text := ''10/0''\<rparr>)
     = Inr (s\<lparr>display_text := ''10/0''\<rparr>\<lparr>display_text := ''Error: Div/0'', new_expression := True\<rparr>)"
    by (rule evaluate_zero_division [where e = "''10/0''"])
      (simp_all add: strip_10_div_0 safe_10_div_0 eval_10_div_0)
  then show "evaluate_expression (s\<lparr>display_text := ''10/0''\<rparr>)
     = Inr (s\<lparr>display_text := ''Error: Div/0'', new_expression := True\<rparr>)"
    by simp
next
  assume h: "strip_trailing_operators (display_text s) = e \<and> is_safe_expression e \<and>
    py_compile e = Inr x \<and> arithmetic x \<and> divides_by_zero x \<and>
    eval_expr x \<noteq> Inl OverflowError"
  then have "eval_expr x = Inl ZeroDivisionError"
    using eval_divides_by_zero [of x] by auto
  then have "py_eval e = Inl ZeroDivisionError"
    using h by (simp add: py_eval_def)
  then show "evaluate_expression s
        = Inr (s\<lparr>display_text := ''Error: Div/0'', new_expression := True\<rparr>)"
    using h by (intro evaluate_zero_division [of s e]) simp_all
qed

lemma compile_example: "py_compile ''8/(3-3)'' =
  Inr (BinOp (Constant (PInt 8)) Div (BinOp (Constant (PInt 3)) Sub (Constant (PInt 3))))"
  by (simp add: py_compile_def lex_simps parse_simps)

theorem division_by_zero_witness:
  "evaluate_expression \<lparr>display_text = ''8/(3-3)'', last_result = PInt 0, new_expression = False\<rparr>
     = Inr \<lparr>display_text = ''Error: Div/0'', last_result = PInt 0, new_expression = True\<rparr>"
proof -
  have a: "strip_trailing_operators ''8/(3-3)'' = ''8/(3-3)''"
    by (simp add: strip_trailing_operators.simps is_operator_def)
  have b: "is_safe_expression ''8/(3-3)''"
    by (simp add: safe_simps)
  show ?thesis
    using division_by_zero_displayed
      [of "\<lparr>display_text = ''8/(3-3)'', last_result = PInt 0, new_expression = False\<rparr>"
          "''8/(3-3)''"
          "BinOp (Constant (PInt 8)) Div (BinOp (Constant (PInt 3)) Sub (Constant (PInt 3)))"]
    by (simp add: a b compile_example int_true_divide_def)
qed

section \<open>Consecutive operators\<close>

lemma py_str_no_adjacent: "py_str v = Inr out \<Longrightarrow> \<not> adjacent_operators out"
proof (cases v)
  case (PInt n)
  then show "py_str v = Inr out \<Longrightarrow> ?thesis" by (simp add: py_str_int_no_adjacent)
next
  case (PFloat x)
  then show "py_str v = Inr out \<Longrightarrow> ?thesis" using float_repr_no_adjacent [of x] by auto
next
  case PTuple
  then show "py_str v = Inr out \<Longrightarrow> ?thesis" by (auto simp: is_operator_def)
qed

lemma error_texts_no_adjacent:
  "\<not> adjacent_operators ''0''" "\<not> adjacent_operators ''Error''"
  "\<not> adjacent_operators ''Error: Div/0''"
  by (simp_all add: is_operator_def)

lemma try_body_no_adjacent:
  "try_body s e = Inr s' \<Longrightarrow> \<not> adjacent_operators (display_text s')"
  by (auto simp: try_body_def error_texts_no_adjacent py_str_no_adjacent py_str_int_no_adjacent
      simp del: adjacent_operators.simps split: if_splits sum.splits)

lemma evaluate_no_adjacent:
  "evaluate_expression s = Inr s' \<Longrightarrow> \<not> adjacent_operators (display_text s')"
  by (auto simp: evaluate_expression_def Let_def error_texts_no_adjacent
      simp del: adjacent_operators.simps
      split: if_splits sum.splits prod.splits dest: try_body_no_adjacent)

lemma operator_value_char: "v \<in> set operator_values \<Longrightarrow> \<exists>c. v = [c] \<and> is_operator c"
  by (auto simp: operator_values_def is_operator_def)

lemma operator_values_cases:
  "v \<in> set operator_values \<Longrightarrow> v = ''+'' \<or> v = ''-'' \<or> v = ''*'' \<or> v = ''/''"
  by (simp add: operator_values_def)

lemma operator_step:
  assumes "v \<in> set operator_values"
  shows "process_input s v =
    Inr (s\<lparr>display_text :=
           (if display_text s \<noteq> [] \<and> is_operator (last (display_text s))
            then butlast (display_text s) @ v else display_text s @ v),
         new_expression := False\<rparr>)"
proof -
  have "v = ''+'' \<or> v = ''-'' \<or> v = ''*'' \<or> v = ''/''"
    using assms by (rule operator_values_cases)
  moreover have "\<And>s. process_input s ''+'' =
    Inr (s\<lparr>display_text :=
           (if display_text s \<noteq> [] \<and> is_operator (last (display_text s))
            then butlast (display_text s) @ ''+'' else display_text s @ ''+''),
         new_expression := False\<rparr>)"
    by (simp add: process_input_def)
  moreover have "\<And>s. process_input s ''-'' =
    Inr (s\<lparr>display_text :=
           (if display_text s \<noteq> [] \<and> is_operator (last (display_text s))
            then butlast (display_text s) @ ''-'' else display_text s @ ''-''),
         new_expression := False\<rparr>)"
    by (simp add: process_input_def)
  moreover have "\<And>s. process_input s ''*'' =
    Inr (s\<lparr>display_text :=
           (if display_text s \<noteq> [] \<and> is_operator (last (display_text s))
            then butlast (display_text s) @ ''*'' else display_text s @ ''*''),
         new_expression := False\<rparr>)"
    by (simp add: process_input_def)
  moreover have "\<And>s. process_input s ''/'' =
    Inr (s\<lparr>display_text :=
           (if display_text s \<noteq> [] \<and> is_operator (last (display_text s))
            then butlast (display_text s) @ ''/'' else display_text s @ ''/''),
         new_expression := False\<rparr>)"
    by (simp add: process_input_def)
  ultimately show ?thesis by blast
qed

lemma operator_text_no_adjacent:
  assumes t: "\<not> adjacent_operators t" and c: "is_operator c"
  shows "\<not> adjacent_operators
    (if t \<noteq> [] \<and> is_operator (last t) then butlast t @ [c] else t @ [c])"
proof (cases "t \<noteq> [] \<and> is_operator (last t)")
  case True
  have b: "\<not> adjacent_operators (butlast t)" using t by (rule adjacent_operators_butlast)
  have "\<not> (butlast t \<noteq> [] \<and> is_operator (last (butlast t)))"
  proof
    assume a: "butlast t \<noteq> [] \<and> is_operator (last (butlast t))"
    have "t = butlast t @ [last t]" using True by simp
    then have "adjacent_operators t = adjacent_operators (butlast t @ [last t])" by simp
    also have "\<dots>" unfolding adjacent_operators_append using a True by simp
    finally show False using t by simp
  qed
  then show ?thesis using True b by (auto simp: adjacent_operators_append)
next
  case False
  then show ?thesis using t by (auto simp: adjacent_operators_append)
qed

lemma clear_step:
  "process_input s ''C'' =
     Inr (if new_expression s then s
          else s\<lparr>display_text := ''0'', last_result := PInt 0, new_expression := True\<rparr>)"
  by (simp add: process_input_def not_digit_values)

lemma delete_step_any:
  "process_input s ''DEL'' =
     Inr (if new_expression s then s
          else s\<lparr>display_text :=
                 (if 1 < length (display_text s) then butlast (display_text s) else ''0'')\<rparr>)"
  by (simp add: process_input_def not_digit_values)

lemma equals_step:
  "process_input s ''='' = (if new_expression s then Inr s else evaluate_expression s)"
  by (simp add: process_input_def not_digit_values)

lemma digit_step:
  assumes c: "re_digit c \<or> c = CHR ''.''" and p: "process_input s [c] = Inr s'"
  shows "display_text s' = [c] \<or> s' = s \<or> display_text s' = display_text s @ [c]"
proof -
  have n: "\<not> is_operator c" using c re_digit_not_operator point_not_operator by blast
  then have a: "\<not> py_in [c] ''+-*/''" by (auto simp: is_operator_def)
  have b: "[c] \<noteq> ''C''" "[c] \<noteq> ''DEL''" "[c] \<noteq> ''=''"
    using c by (auto simp: re_digit_def)
  show ?thesis
    using p unfolding process_input_def Let_def
    by (simp only: a b if_False simp_thms split: if_splits) auto
qed

lemma digit_values_cases: "v \<in> set digit_values \<Longrightarrow> \<exists>c. v = [c] \<and> re_digit c"
  by (auto simp: digit_values_def re_digit_def)

lemma button_values_cases:
  "v \<in> set button_values \<Longrightarrow>
   v = ''C'' \<or> v = ''DEL'' \<or> v = ''='' \<or> v \<in> set operator_values \<or>
   (\<exists>c. v = [c] \<and> (re_digit c \<or> c = CHR ''.''))"
  using digit_values_cases by (auto simp: button_values_def)

lemma step_no_adjacent:
  assumes t: "\<not> adjacent_operators (display_text s)" and v: "v \<in> set button_values"
    and p: "process_input s v = Inr s'"
  shows "\<not> adjacent_operators (display_text s')"
proof -
  consider (c) "v = ''C''" | (d) "v = ''DEL''" | (e) "v = ''=''" | (o) "v \<in> set operator_values"
    | (n) c where "v = [c]" "re_digit c \<or> c = CHR ''.''"
    using button_values_cases [OF v] by blast
  then show ?thesis
  proof cases
    case c
    then show ?thesis using p t by (auto simp: clear_step is_operator_def split: if_splits)
  next
    case d
    then show ?thesis
      using p t adjacent_operators_butlast [OF t]
      by (auto simp: delete_step_any is_operator_def split: if_splits)
  next
    case e
    then show ?thesis using p t evaluate_no_adjacent [of s s']
      by (auto simp: equals_step split: if_splits)
  next
    case o
    obtain c where c: "v = [c]" "is_operator c" using operator_value_char [OF o] by blast
    have "display_text s' =
      (if display_text s \<noteq> [] \<and> is_operator (last (display_text s))
       then butlast (display_text s) @ [c] else display_text s @ [c])"
      using p c operator_step [OF o, of s] by auto
    then show ?thesis using operator_text_no_adjacent [OF t c(2)] by simp
  next
    case n
    have no: "\<not> is_operator c" using n(2) re_digit_not_operator point_not_operator by blast
    have "display_text s' = [c] \<or> s' = s \<or> display_text s' = display_text s @ [c]"
      using n p digit_step [of c s s'] by simp
    then show ?thesis using t no by (auto simp: adjacent_operators_append)
  qed
qed

lemma reachable_no_adjacent: "reachable s \<Longrightarrow> \<not> adjacent_operators (display_text s)"
proof (induction rule: reachable.induct)
  case reachable_init
  then show ?case by (simp add: initial_state_def)
next
  case (reachable_step s v s')
  then show ?case using step_no_adjacent by blast
qed

text \<open>
  Claim C6. From every reachable state, two operator inputs in a row raise nothing; the
  first leaves its operator as the last character of the text, the second replaces that
  character by its own, and the resulting text contains no two adjacent operator
  characters.
\<close>

theorem second_operator_replaces_first:
  "reachable s \<Longrightarrow> a \<in> set operator_values \<Longrightarrow> b \<in> set operator_values \<Longrightarrow>
   \<exists>s1 s2. process_input s a = Inr s1 \<and> process_input s1 b = Inr s2 \<and>
     display_text s1 \<noteq> [] \<and> [last (display_text s1)] = a \<and>
     display_text s2 = butlast (display_text s1) @ b \<and>
     \<not> adjacent_operators (display_text s2)"
proof -
  assume r: "reachable s" and a: "a \<in> set operator_values" and b: "b \<in> set operator_values"
  obtain c where c: "a = [c]" "is_operator c" using operator_value_char [OF a] by blast
  define s1 where "s1 = s\<lparr>display_text :=
           (if display_text s \<noteq> [] \<and> is_operator (last (display_text s))
            then butlast (display_text s) @ a else display_text s @ a),
         new_expression := False\<rparr>"
  have p1: "process_input s a = Inr s1" unfolding s1_def by (rule operator_step [OF a])
  have l1: "display_text s1 \<noteq> []" "[last (display_text s1)] = a" "is_operator (last (display_text s1))"
    using c by (auto simp: s1_def)
  define s2 where "s2 = s1\<lparr>display_text := butlast (display_text s1) @ b, new_expression := False\<rparr>"
  have p2: "process_input s1 b = Inr s2"
    using operator_step [OF b, of s1] l1 by (simp add: s2_def)
  have r1: "reachable s1"
    using r p1 a by (intro reachable_step [of s a s1]) (auto simp: button_values_def)
  have r2: "reachable s2"
    using r1 p2 b by (intro reachable_step [of s1 b s2]) (auto simp: button_values_def)
  have "\<not> adjacent_operators (display_text s2)" using r2 by (rule reachable_no_adjacent)
  moreover have "display_text s2 = butlast (display_text s1) @ b" by (simp add: s2_def)
  ultimately show ?thesis using p1 p2 l1 by blast
qed

theorem second_operator_witness:
  "reachable initial_state \<and> ''+'' \<in> set operator_values \<and> ''-'' \<in> set operator_values \<and>
   (\<exists>s1 s2. process_input initial_state ''+'' = Inr s1 \<and> process_input s1 ''-'' = Inr s2 \<and>
      display_text s1 = ''0+'' \<and> display_text s2 = ''0-'' \<and>
      \<not> adjacent_operators (display_text s2))"
proof -
  have o: "''+'' \<in> set operator_values" "''-'' \<in> set operator_values"
    by (simp_all add: operator_values_def)
  have p: "process_input initial_state ''+''
    = Inr \<lparr>display_text = ''0+'', last_result = PInt 0, new_expression = False\<rparr>"
    by (simp add: initial_state_def process_input_def is_operator_def)
  show ?thesis
    using second_operator_replaces_first [OF reachable_init o] o reachable_init p
    by auto
qed

section \<open>The syntax that the evaluator accepts\<close>







end
